theory Spec2Isabelle
  imports Complex_Main "HOL-Library.Multiset"
begin

section \<open>Data model\<close>

text \<open>
  Values that travel through \<^verbatim>\<open>json.dumps\<close> and \<^verbatim>\<open>json.loads\<close>: the JSON data model as
  Python sees it (\<^verbatim>\<open>None\<close>, \<^verbatim>\<open>bool\<close>, \<^verbatim>\<open>int\<close>, \<^verbatim>\<open>str\<close>, \<^verbatim>\<open>list\<close>, \<^verbatim>\<open>dict\<close> in key order).
\<close>

datatype json =
    JNull
  | JBool bool
  | JInt int
  | JStr string
  | JList "json list"
  | JDict "(string \<times> json) list"

text \<open>The three values of \<^verbatim>\<open>UpdateController.update_status\<close>.\<close>

datatype status = IDLE | UPDATING | UPDATED

text \<open>
  What can be raised out of the operations modelled here: \<^verbatim>\<open>GraphQL.get_all\<close> failing,
  the database transaction failing, \<^verbatim>\<open>json.loads\<close> rejecting a text, and unpacking a
  list of the wrong length into two names.
\<close>

datatype error = TransportFailure | StoreFailure | JSONDecodeError | ValueError

text \<open>
  The effects of the running thread, in program order. The trace is ghost state: no
  operation reads it.
\<close>

datatype event =
    LockAcquire
  | LockRelease
  | SetStatus status
  | SetLastRun real
  | Sleep
  | Fetch
  | Reload
  | Commit
  | ClearCaches
  | WrapperGet
  | Query
  | RetryAcquire
  | RetryRelease
  | ThreadStart

text \<open>
  What another thread does while this one is inside \<^verbatim>\<open>time.sleep(0.5)\<close>. The only writer of
  the controller that does not need \<^verbatim>\<open>update_lock\<close> is \<^verbatim>\<open>mark_status_updated\<close>, so that
  is the only interference a sleeping holder of the lock can observe.
\<close>

datatype interference = Quiet | OtherMarksUpdated

text \<open>One element of the list \<^verbatim>\<open>GraphQL.get_all()\<close> returns.\<close>

record payload =
  p_serviceUuid :: string
  p_name :: string
  p_alias :: "string option"
  p_username :: string
  p_description :: string
  p_isCertified :: bool
  p_public :: bool
  p_topics :: json
  p_state :: string
  p_configuration :: json
  p_readme :: string

text \<open>
  A \<^verbatim>\<open>Service\<close> object. In the table the columns \<^verbatim>\<open>topics\<close> and \<^verbatim>\<open>configuration\<close> hold
  text (\<open>'t = string\<close>); \<^verbatim>\<open>get\<close> overwrites both attributes with structured values
  (\<open>'t = json\<close>) before it returns the object.
\<close>

record 't service =
  service_uuid :: string
  name :: string
  "alias" :: "string option"
  username :: string
  description :: string
  certified :: bool
  is_public :: bool
  topics :: "'t option"
  state :: string
  configuration :: "'t option"
  readme :: string
  raw_data :: string

text \<open>What \<^verbatim>\<open>get\<close> returns when it finds something: a \<^verbatim>\<open>Service\<close>, or the
  \<^verbatim>\<open>ServiceData\<close> built by \<^verbatim>\<open>ServiceData.from_dict(data=d)\<close>, kept as its argument \<open>d\<close>.\<close>

datatype found = Plain "json service" | Wrapped json

text \<open>The key of \<^verbatim>\<open>ttl_cache_for_services\<close>: the arguments of \<^verbatim>\<open>get\<close>.\<close>

type_synonym get_key = "string option \<times> string option \<times> string option \<times> bool"

text \<open>
  The functions the hub calls that are not in its own file, taken as parameters:
  \<^verbatim>\<open>json.dumps\<close>, \<^verbatim>\<open>json.loads\<close> (\<open>None\<close> when it raises) and \<^verbatim>\<open>ServiceWrapper.get\<close>, a
  function of the services last given to \<^verbatim>\<open>ServiceWrapper.reload_services\<close> and of its
  three arguments. \<^verbatim>\<open>get\<close> reads the object the wrapper returns through \<^verbatim>\<open>raw_data\<close>
  only, as it reads a row, so that object has the type of a row here.
\<close>

record lib =
  json_dumps :: "json \<Rightarrow> string"
  json_loads :: "string \<Rightarrow> json option"
  wrapper_get :: "payload list \<Rightarrow> string option \<Rightarrow> string option \<Rightarrow> string option
                    \<Rightarrow> string service option"

text \<open>
  The hub object together with everything it shares: the clock read by \<^verbatim>\<open>time.time()\<close>,
  the fields of its \<^verbatim>\<open>UpdateController\<close>, the optional \<^verbatim>\<open>ServiceWrapper\<close> (with the services
  it was last given), the \<^verbatim>\<open>Service\<close> table of the database file at \<^verbatim>\<open>db_path\<close>, and the
  two TTL caches (each entry with the time it was stored). Three fields are the
  surroundings of a run and are only read: what \<^verbatim>\<open>GraphQL.get_all()\<close> answers or raises,
  whether the database transaction fails, and the interference met by each coming
  \<^verbatim>\<open>time.sleep\<close>. The times are real numbers; a call other than \<^verbatim>\<open>time.sleep\<close> takes no
  time.
\<close>

record world =
  clock :: real
  last_update_run :: "real option"
  update_interval :: real
  update_status :: status
  service_wrapper :: "payload list option"
  update_thread :: bool
  db :: "string service list"
  ttl_cache_for_service_names :: "(string list \<times> real) option"
  ttl_cache_for_services :: "(get_key \<times> found option \<times> real) list"
  remote :: "error + payload list"
  store_fault :: bool
  pending :: "interference list"
  trace :: "event list"

definition emit :: "event \<Rightarrow> world \<Rightarrow> world" where
  "emit e w = w\<lparr>trace := trace w @ [e]\<rparr>"

section \<open>UpdateController\<close>

definition mark_status_updating :: "world \<Rightarrow> world" where
  "mark_status_updating w = emit (SetStatus UPDATING) (w\<lparr>update_status := UPDATING\<rparr>)"

definition mark_status_updated :: "world \<Rightarrow> world" where
  "mark_status_updated w =
     emit (SetLastRun (clock w))
       (emit (SetStatus UPDATED) (w\<lparr>update_status := UPDATED\<rparr>)
          \<lparr>last_update_run := Some (clock w)\<rparr>)"

definition is_updating :: "world \<Rightarrow> bool" where
  "is_updating w =
     (if update_status w = IDLE \<or> update_status w = UPDATED then False else True)"

definition check_last_update_run :: "world \<Rightarrow> bool" where
  "check_last_update_run w =
     (case last_update_run w of
        None \<Rightarrow> True
      | Some t \<Rightarrow> (if clock w - t < update_interval w then False else True))"

text \<open>
  \<^verbatim>\<open>time.sleep(0.5)\<close>: half a second passes, and the next pending interference happens.
  Another thread's \<^verbatim>\<open>mark_status_updated\<close> writes the status and the time of that moment;
  it is not an effect of this thread, so it is not logged.
\<close>

definition interfere :: "interference \<Rightarrow> world \<Rightarrow> world" where
  "interfere i w =
     (case i of
        Quiet \<Rightarrow> w
      | OtherMarksUpdated \<Rightarrow> w\<lparr>update_status := UPDATED, last_update_run := Some (clock w)\<rparr>)"

definition sleep_half :: "world \<Rightarrow> world" where
  "sleep_half w =
     (let w1 = emit Sleep (w\<lparr>clock := clock w + 1 / 2\<rparr>) in
      case pending w1 of
        [] \<Rightarrow> w1
      | i # rest \<Rightarrow> interfere i (w1\<lparr>pending := rest\<rparr>))"

text \<open>The \<^verbatim>\<open>while\<close> loop of \<^verbatim>\<open>go_nogo_execute_update\<close>; it returns \<^verbatim>\<open>sleep_count\<close> too.\<close>

function poll :: "nat \<Rightarrow> world \<Rightarrow> nat \<times> world" where
  "poll sleep_count w =
     (if update_status w = UPDATING \<and> sleep_count < 5
      then poll (sleep_count + 1) (sleep_half w)
      else (sleep_count, w))"
  by pat_completeness auto
termination
  by (relation "measure (\<lambda>(c, w). 5 - c)") auto

declare poll.simps [simp del]

definition go_nogo_execute_update :: "world \<Rightarrow> bool \<times> world" where
  "go_nogo_execute_update w =
     (let w1 = emit LockAcquire w in
      if check_last_update_run w1 \<and> \<not> is_updating w1
      then (True, emit LockRelease (mark_status_updating w1))
      else
        (let (sleep_count, w2) = poll 0 w1 in
         if update_status w2 = UPDATING
         then (True, emit LockRelease w2)
         else (False, emit LockRelease w2)))"

section \<open>StoryscriptHub\<close>

subsection \<open>The two TTL caches\<close>

text \<open>
  \<^verbatim>\<open>TTLCache(maxsize=..., ttl=1 * 60)\<close> with the \<^verbatim>\<open>cached\<close> decorator: a call whose key has an
  entry younger than the time to live returns the stored value; any other call runs the
  function and stores what it returns (an exception stores nothing). Storing drops the
  expired entries first and then the oldest ones until the new entry fits.
\<close>

definition ttl :: real where
  "ttl = 1 * 60"

definition maxsize_services :: nat where
  "maxsize_services = 128"

definition cache_lookup :: "get_key \<Rightarrow> world \<Rightarrow> found option option" where
  "cache_lookup k w =
     (case find (\<lambda>(k', v, t). k' = k \<and> clock w < t + ttl) (ttl_cache_for_services w) of
        None \<Rightarrow> None
      | Some (k', v, t) \<Rightarrow> Some v)"

definition cache_store :: "get_key \<Rightarrow> found option \<Rightarrow> world \<Rightarrow> world" where
  "cache_store k v w =
     (let live = filter (\<lambda>(k', v', t). k' \<noteq> k \<and> clock w < t + ttl) (ttl_cache_for_services w);
          kept = drop (Suc (length live) - maxsize_services) live
      in w\<lparr>ttl_cache_for_services := kept @ [(k, v, clock w)]\<rparr>)"

subsection \<open>get_all_service_names\<close>

text \<open>Python's truth value of \<^verbatim>\<open>s.alias\<close>: neither \<^verbatim>\<open>None\<close> nor the empty string.\<close>

definition truthy :: "string option \<Rightarrow> bool" where
  "truthy a = (case a of None \<Rightarrow> False | Some s \<Rightarrow> s \<noteq> [])"

text \<open>The \<^verbatim>\<open>for\<close> loop over the selected rows, with the list \<^verbatim>\<open>services\<close> it appends to.\<close>

fun collect_names :: "string list \<Rightarrow> 't service list \<Rightarrow> string list" where
  "collect_names services [] = services"
| "collect_names services (s # rest) =
     collect_names
       ((if truthy (alias s) then services @ [the (alias s)] else services)
          @ [username s @ ''/'' @ name s])
       rest"

definition get_all_service_names :: "world \<Rightarrow> string list \<times> world" where
  "get_all_service_names w =
     (let miss = (let services = collect_names [] (db w)
                  in (services, w\<lparr>ttl_cache_for_service_names := Some (services, clock w)\<rparr>))
      in case ttl_cache_for_service_names w of
           None \<Rightarrow> miss
         | Some (v, t) \<Rightarrow> (if clock w < t + ttl then (v, w) else miss))"

subsection \<open>_get\<close>

text \<open>\<^verbatim>\<open>alias.count("/")\<close> and \<^verbatim>\<open>alias.split("/")\<close>.\<close>

definition count_slash :: "string \<Rightarrow> nat" where
  "count_slash s = length (filter (\<lambda>c. c = CHR ''/'') s)"

function split_slash :: "string \<Rightarrow> string list" where
  "split_slash s =
     (case dropWhile (\<lambda>c. c \<noteq> CHR ''/'') s of
        [] \<Rightarrow> [s]
      | c # rest \<Rightarrow> takeWhile (\<lambda>c. c \<noteq> CHR ''/'') s # split_slash rest)"
  by pat_completeness auto
termination
proof (relation "measure length")
  fix s :: string and c rest
  assume "dropWhile (\<lambda>c. c \<noteq> CHR ''/'') s = c # rest"
  then have "length (c # rest) \<le> length s"
    by (metis length_dropWhile_le)
  then show "(rest, s) \<in> measure length" by simp
qed simp

declare split_slash.simps [simp del]

text \<open>
  \<^verbatim>\<open>Service.select().where(...).get()\<close> inside \<^verbatim>\<open>try ... except DoesNotExist: return None\<close>:
  the first row that satisfies the condition, if there is one. The comparison with a
  column is SQL's: a null alias equals nothing, and an owner or a name that is \<^verbatim>\<open>None\<close>
  asks for a null column, which \<^verbatim>\<open>username\<close> and \<^verbatim>\<open>name\<close> never are.
\<close>

definition select_by_alias :: "string \<Rightarrow> 't service list \<Rightarrow> 't service option" where
  "select_by_alias a rows = find (\<lambda>s. alias s = Some a) rows"

definition select_by_owner_name ::
  "string option \<Rightarrow> string option \<Rightarrow> 't service list \<Rightarrow> 't service option" where
  "select_by_owner_name owner nm rows =
     find (\<lambda>s. Some (username s) = owner \<and> Some (name s) = nm) rows"

definition underscore_get ::
  "string option \<Rightarrow> string option \<Rightarrow> string option \<Rightarrow> world
     \<Rightarrow> (error + string service option) \<times> world" where
  "underscore_get alias0 owner0 name0 w =
     (let args =
            (case alias0 of
               None \<Rightarrow> Inr (alias0, owner0, name0)
             | Some a \<Rightarrow>
                 (if count_slash a = 1
                  then (case split_slash a of
                          [owner, nm] \<Rightarrow> Inr (None, Some owner, Some nm)
                        | _ \<Rightarrow> Inl ValueError)
                  else Inr (alias0, owner0, name0)))
      in case args of
           Inl e \<Rightarrow> (Inl e, w)
         | Inr (alias1, owner1, name1) \<Rightarrow>
             (if truthy alias1
              then (Inr (select_by_alias (the alias1) (db w)), emit Query w)
              else (Inr (select_by_owner_name owner1 name1 (db w)), emit Query w)))"

subsection \<open>update_cache\<close>

text \<open>The dictionary one payload is, as \<^verbatim>\<open>json.dumps(service)\<close> receives it.\<close>

definition json_opt :: "string option \<Rightarrow> json" where
  "json_opt a = (case a of None \<Rightarrow> JNull | Some s \<Rightarrow> JStr s)"

definition payload_dict :: "payload \<Rightarrow> json" where
  "payload_dict p =
     JDict
       [(''service'',
           JDict
             [(''name'', JStr (p_name p)),
              (''alias'', json_opt (p_alias p)),
              (''owner'', JDict [(''username'', JStr (p_username p))]),
              (''topics'', p_topics p),
              (''description'', JStr (p_description p)),
              (''isCertified'', JBool (p_isCertified p)),
              (''public'', JBool (p_public p))]),
        (''serviceUuid'', JStr (p_serviceUuid p)),
        (''state'', JStr (p_state p)),
        (''configuration'', p_configuration p),
        (''readme'', JStr (p_readme p))]"

text \<open>\<^verbatim>\<open>Service.create(...)\<close>: the row made of one payload.\<close>

definition create :: "lib \<Rightarrow> payload \<Rightarrow> string service" where
  "create L p =
     \<lparr>service_uuid = p_serviceUuid p,
      name = p_name p,
      alias = p_alias p,
      username = p_username p,
      description = p_description p,
      certified = p_isCertified p,
      is_public = p_public p,
      topics = Some (json_dumps L (p_topics p)),
      state = p_state p,
      configuration = Some (json_dumps L (p_configuration p)),
      readme = p_readme p,
      raw_data = json_dumps L (payload_dict p)\<rparr>"

text \<open>
  The \<^verbatim>\<open>db.atomic(lock_type='IMMEDIATE')\<close> block: every row deleted and one row created
  per fetched service, or, when the transaction fails, the table as it was and the
  exception.
\<close>

definition replace_all :: "lib \<Rightarrow> payload list \<Rightarrow> world \<Rightarrow> (error + unit) \<times> world" where
  "replace_all L services w =
     (if store_fault w then (Inl StoreFailure, w)
      else (Inr (), emit Commit (w\<lparr>db := map (create L) services\<rparr>)))"

text \<open>
  \<^verbatim>\<open>if self._service_wrapper is not None: self._service_wrapper.reload_services(services)\<close>:
  the wrapper, when there is one, is given the fetched list.
\<close>

definition reload_services :: "payload list \<Rightarrow> world \<Rightarrow> world" where
  "reload_services services w =
     (case service_wrapper w of
        None \<Rightarrow> w
      | Some old \<Rightarrow> emit Reload (w\<lparr>service_wrapper := Some services\<rparr>))"

text \<open>The two \<^verbatim>\<open>clear()\<close> calls.\<close>

definition clear_caches :: "world \<Rightarrow> world" where
  "clear_caches w =
     emit ClearCaches (w\<lparr>ttl_cache_for_service_names := None, ttl_cache_for_services := []\<rparr>)"

definition update_cache :: "lib \<Rightarrow> world \<Rightarrow> (error + bool) \<times> world" where
  "update_cache L w =
     (let (do_update, w1) = go_nogo_execute_update w in
      if \<not> do_update then (Inr False, w1)
      else
        (let w2 = emit Fetch w1 in
         case remote w2 of
           Inl e \<Rightarrow> (Inl e, w2)
         | Inr services \<Rightarrow>
             (let w3 = reload_services services w2 in
              case replace_all L services w3 of
                (Inl e, w4) \<Rightarrow> (Inl e, w4)
              | (Inr u, w4) \<Rightarrow>
                  (let w5 = clear_caches w4;
                       w6 = mark_status_updated w5
                   in (Inr True, w6)))))"

subsection \<open>get\<close>

text \<open>The \<^verbatim>\<open>Service\<close> object with its two attributes overwritten by structured values.\<close>

definition with_structured ::
  "string service \<Rightarrow> json option \<Rightarrow> json option \<Rightarrow> json service" where
  "with_structured s t c =
     \<lparr>service_uuid = service_uuid s,
      name = name s,
      alias = alias s,
      username = username s,
      description = description s,
      certified = certified s,
      is_public = is_public s,
      topics = t,
      state = state s,
      configuration = c,
      readme = readme s,
      raw_data = raw_data s\<rparr>"

definition loads_column :: "lib \<Rightarrow> string option \<Rightarrow> error + json option" where
  "loads_column L col =
     (case col of
        None \<Rightarrow> Inr None
      | Some text \<Rightarrow>
          (case json_loads L text of
             None \<Rightarrow> Inl JSONDecodeError
           | Some v \<Rightarrow> Inr (Some v)))"

text \<open>The part of \<^verbatim>\<open>get\<close> under \<^verbatim>\<open>if service is not None:\<close>.\<close>

definition present :: "lib \<Rightarrow> bool \<Rightarrow> world \<Rightarrow> string service \<Rightarrow> error + found" where
  "present L wrap_service w s =
     (if wrap_service \<or> service_wrapper w \<noteq> None
      then (case json_loads L (raw_data s) of
              None \<Rightarrow> Inl JSONDecodeError
            | Some d \<Rightarrow> Inr (Wrapped (JDict [(''service_data'', d)])))
      else (case loads_column L (topics s) of
              Inl e \<Rightarrow> Inl e
            | Inr t \<Rightarrow>
                (case loads_column L (configuration s) of
                   Inl e \<Rightarrow> Inl e
                 | Inr c \<Rightarrow> Inr (Plain (with_structured s t c)))))"

text \<open>The \<^verbatim>\<open>with self.retry_lock:\<close> block, entered when nothing was found so far.\<close>

definition retry ::
  "lib \<Rightarrow> string option \<Rightarrow> string option \<Rightarrow> string option \<Rightarrow> world
     \<Rightarrow> (error + string service option) \<times> world" where
  "retry L alias0 owner0 name0 w =
     (let w1 = emit RetryAcquire w in
      case underscore_get alias0 owner0 name0 w1 of
        (Inl e, w2) \<Rightarrow> (Inl e, emit RetryRelease w2)
      | (Inr (Some s), w2) \<Rightarrow> (Inr (Some s), emit RetryRelease w2)
      | (Inr None, w2) \<Rightarrow>
          (case update_cache L w2 of
             (Inl e, w3) \<Rightarrow> (Inl e, emit RetryRelease w3)
           | (Inr did, w3) \<Rightarrow>
               (case underscore_get alias0 owner0 name0 w3 of
                  (r, w4) \<Rightarrow> (r, emit RetryRelease w4))))"

text \<open>
  The first half of the body of \<^verbatim>\<open>get\<close>, down to the retry block: the wrapper is asked
  first when there is one, then the table, then the retry block. An object the wrapper
  returns is read through the same attributes as a row.
\<close>

definition locate ::
  "lib \<Rightarrow> string option \<Rightarrow> string option \<Rightarrow> string option \<Rightarrow> world
     \<Rightarrow> (error + string service option) \<times> world" where
  "locate L alias0 owner0 name0 w =
     (let (service1, w1) =
            (case service_wrapper w of
               None \<Rightarrow> (None, w)
             | Some loaded \<Rightarrow> (wrapper_get L loaded alias0 owner0 name0, emit WrapperGet w));
          (r2, w2) =
            (case service1 of
               None \<Rightarrow> underscore_get alias0 owner0 name0 w1
             | Some s \<Rightarrow> (Inr (Some s), w1))
      in case r2 of
           Inr None \<Rightarrow> retry L alias0 owner0 name0 w2
         | _ \<Rightarrow> (r2, w2))"

text \<open>
  The body of \<^verbatim>\<open>get\<close>, which the decorator runs when the cache has no entry. The
  branch for a \<^verbatim>\<open>MagicMock\<close> is left out: only a patched test can reach it, and neither a
  row nor a wrapper object is one.
\<close>

definition get_uncached ::
  "lib \<Rightarrow> string option \<Rightarrow> string option \<Rightarrow> string option \<Rightarrow> bool \<Rightarrow> world
     \<Rightarrow> (error + found option) \<times> world" where
  "get_uncached L alias0 owner0 name0 wrap_service w =
     (case locate L alias0 owner0 name0 w of
        (Inl e, w3) \<Rightarrow> (Inl e, w3)
      | (Inr None, w3) \<Rightarrow> (Inr None, w3)
      | (Inr (Some s), w3) \<Rightarrow>
          (case present L wrap_service w3 s of
             Inl e \<Rightarrow> (Inl e, w3)
           | Inr f \<Rightarrow> (Inr (Some f), w3)))"

definition get ::
  "lib \<Rightarrow> string option \<Rightarrow> string option \<Rightarrow> string option \<Rightarrow> bool \<Rightarrow> world
     \<Rightarrow> (error + found option) \<times> world" where
  "get L alias0 owner0 name0 wrap_service w =
     (let k = (alias0, owner0, name0, wrap_service) in
      case cache_lookup k w of
        Some v \<Rightarrow> (Inr v, w)
      | None \<Rightarrow>
          (case get_uncached L alias0 owner0 name0 wrap_service w of
             (Inl e, w') \<Rightarrow> (Inl e, w')
           | (Inr v, w') \<Rightarrow> (Inr v, cache_store k v w')))"

subsection \<open>The constructor\<close>

text \<open>
  \<^verbatim>\<open>StoryscriptHub(db_path, auto_update, service_wrapper, update_interval)\<close>, run in a world
  \<open>env\<close> that supplies what the new object does not own: the clock, the table of the
  database file at \<^verbatim>\<open>db_path\<close>, the class-level caches, the remote side.
\<close>

definition init :: "lib \<Rightarrow> bool \<Rightarrow> bool \<Rightarrow> real \<Rightarrow> world \<Rightarrow> (error + unit) \<times> world" where
  "init L auto_update wrapper interval env =
     (let w = env\<lparr>last_update_run := None, update_interval := interval,
                  update_status := IDLE, service_wrapper := None, update_thread := False\<rparr>;
          (r1, w1) =
            (if wrapper
             then (case update_cache L (w\<lparr>service_wrapper := Some []\<rparr>) of
                     (Inl e, w') \<Rightarrow> (Inl e, w')
                   | (Inr did, w') \<Rightarrow> (Inr (), w'))
             else (Inr (), w))
      in case r1 of
           Inl e \<Rightarrow> (Inl e, w1)
         | Inr u \<Rightarrow>
             (if auto_update
              then (Inr (), emit ThreadStart (w1\<lparr>update_thread := True\<rparr>))
              else (Inr (), w1)))"

section \<open>Reading a trace\<close>

text \<open>
  The writes to the controller's two fields that a trace contains, each with whether this
  thread held \<^verbatim>\<open>update_lock\<close> at that moment; the first argument says whether it holds
  the lock when the trace starts.
\<close>

fun writes :: "bool \<Rightarrow> event list \<Rightarrow> (event \<times> bool) list" where
  "writes held [] = []"
| "writes held (LockAcquire # es) = writes True es"
| "writes held (LockRelease # es) = writes False es"
| "writes held (SetStatus s # es) = (SetStatus s, held) # writes held es"
| "writes held (SetLastRun t # es) = (SetLastRun t, held) # writes held es"
| "writes held (e # es) = writes held es"

text \<open>How often an event occurs in a trace.\<close>

definition occurrences :: "event \<Rightarrow> event list \<Rightarrow> nat" where
  "occurrences e es = length (filter (\<lambda>x. x = e) es)"

text \<open>
  The query \<^verbatim>\<open>_get\<close> comes down to, as a function of its arguments and the rows: by owner
  and name, taken from around the slash of an alias that has exactly one, by alias for
  any other alias that is not empty, by the owner and name passed otherwise.
\<close>

definition store_query ::
  "string option \<Rightarrow> string option \<Rightarrow> string option \<Rightarrow> 't service list \<Rightarrow> 't service option" where
  "store_query alias0 owner0 name0 rows =
     (case alias0 of
        None \<Rightarrow> select_by_owner_name owner0 name0 rows
      | Some a \<Rightarrow>
          (if count_slash a = 1
           then select_by_owner_name
                  (Some (takeWhile (\<lambda>c. c \<noteq> CHR ''/'') a))
                  (Some (tl (dropWhile (\<lambda>c. c \<noteq> CHR ''/'') a))) rows
           else if a \<noteq> [] then select_by_alias a rows
           else select_by_owner_name owner0 name0 rows))"

section \<open>A concrete run\<close>

text \<open>
  The text \<^verbatim>\<open>json.dumps\<close> writes with its default separators, for the values of the data
  type above (strings that need no escaping).
\<close>

fun show_nat :: "nat \<Rightarrow> string" where
  "show_nat n =
     (if n < 10 then [char_of (48 + n)]
      else show_nat (n div 10) @ [char_of (48 + n mod 10)])"

declare show_nat.simps [simp del]

definition show_int :: "int \<Rightarrow> string" where
  "show_int i = (if i < 0 then CHR ''-'' # show_nat (nat (- i)) else show_nat (nat i))"

fun join :: "string \<Rightarrow> string list \<Rightarrow> string" where
  "join sep [] = []"
| "join sep [x] = x"
| "join sep (x # y # ys) = x @ sep @ join sep (y # ys)"

fun show_json :: "json \<Rightarrow> string" where
  "show_json JNull = ''null''"
| "show_json (JBool b) = (if b then ''true'' else ''false'')"
| "show_json (JInt i) = show_int i"
| "show_json (JStr s) = [CHR 0x22] @ s @ [CHR 0x22]"
| "show_json (JList xs) = ''['' @ join '', '' (map show_json xs) @ '']''"
| "show_json (JDict kvs) =
     ''{'' @ join '', ''
              (map (\<lambda>(k, v). [CHR 0x22] @ k @ [CHR 0x22] @ '': '' @ show_json v) kvs) @ ''}''"

text \<open>
  The service of the specification's scenarios: owner \<^verbatim>\<open>acme\<close>, name \<^verbatim>\<open>widget\<close>, alias
  \<^verbatim>\<open>w\<close>, topics \<^verbatim>\<open>["a","b"]\<close> and configuration \<^verbatim>\<open>{"x":1}\<close>.
\<close>

definition example_payload :: payload where
  "example_payload =
     \<lparr>p_serviceUuid = ''A86742FD'', p_name = ''widget'', p_alias = Some ''w'',
      p_username = ''acme'', p_description = ''d'', p_isCertified = False,
      p_public = True, p_topics = JList [JStr ''a'', JStr ''b''], p_state = ''BETA'',
      p_configuration = JDict [(''x'', JInt 1)], p_readme = ''r''\<rparr>"

text \<open>
  A library for the run: \<^verbatim>\<open>json.loads\<close> reads back the texts of the values that occur in
  it, and the wrapper knows no service.
\<close>

definition example_lib :: lib where
  "example_lib =
     \<lparr>json_dumps = show_json,
      json_loads =
        (\<lambda>text. find (\<lambda>v. show_json v = text)
           [p_topics example_payload, p_configuration example_payload,
            payload_dict example_payload]),
      wrapper_get = (\<lambda>loaded a ow n. None)\<rparr>"

definition example_world :: world where
  "example_world =
     \<lparr>clock = 100, last_update_run = None, update_interval = 60, update_status = IDLE,
      service_wrapper = None, update_thread = False, db = [],
      ttl_cache_for_service_names = None, ttl_cache_for_services = [],
      remote = Inr [example_payload], store_fault = False, pending = [], trace = []\<rparr>"

text \<open>The same world once the service is in the table.\<close>

definition example_stored :: world where
  "example_stored = example_world\<lparr>db := [create example_lib example_payload]\<rparr>"

text \<open>A table whose only row has an alias that ends in a slash.\<close>

definition example_slashed :: world where
  "example_slashed =
     example_world\<lparr>db := [create example_lib (example_payload\<lparr>p_alias := Some ''acme/''\<rparr>)]\<rparr>"

section \<open>The refresh gate\<close>

lemma sleep_half_fields [simp]:
  "clock (sleep_half w) = clock w + 1 / 2"
  "update_interval (sleep_half w) = update_interval w"
  "service_wrapper (sleep_half w) = service_wrapper w"
  "update_thread (sleep_half w) = update_thread w"
  "db (sleep_half w) = db w"
  "ttl_cache_for_service_names (sleep_half w) = ttl_cache_for_service_names w"
  "ttl_cache_for_services (sleep_half w) = ttl_cache_for_services w"
  "remote (sleep_half w) = remote w"
  "store_fault (sleep_half w) = store_fault w"
  "trace (sleep_half w) = trace w @ [Sleep]"
  "pending (sleep_half w) = tl (pending w)"
  by (simp_all add: sleep_half_def emit_def interfere_def Let_def
        split: list.splits interference.splits)

lemma sleep_half_status:
  "update_status (sleep_half w) =
     (case pending w of OtherMarksUpdated # _ \<Rightarrow> UPDATED | _ \<Rightarrow> update_status w)"
  by (simp add: sleep_half_def emit_def interfere_def Let_def
        split: list.splits interference.splits)

lemma poll_stop: "\<not> (update_status w = UPDATING \<and> c < 5) \<Longrightarrow> poll c w = (c, w)"
  by (subst poll.simps) auto

lemma poll_step:
  "update_status w = UPDATING \<Longrightarrow> c < 5 \<Longrightarrow> poll c w = poll (c + 1) (sleep_half w)"
  by (subst poll.simps) simp

lemma poll_fst: "c \<le> fst (poll c w) \<and> fst (poll c w) \<le> max c 5"
proof (induction c w rule: poll.induct)
  case (1 c w)
  show ?case
  proof (cases "update_status w = UPDATING \<and> c < 5")
    case True
    with 1 show ?thesis by (simp add: poll_step)
  next
    case False
    then show ?thesis by (simp add: poll_stop)
  qed
qed

lemma poll_clock: "clock (snd (poll c w)) = clock w + real (fst (poll c w) - c) / 2"
proof (induction c w rule: poll.induct)
  case (1 c w)
  show ?case
  proof (cases "update_status w = UPDATING \<and> c < 5")
    case True
    have "c + 1 \<le> fst (poll (c + 1) (sleep_half w))" using poll_fst by blast
    with True 1 show ?thesis
      by (simp add: poll_step field_simps of_nat_diff)
  next
    case False
    then show ?thesis by (simp add: poll_stop)
  qed
qed

lemma poll_trace: "trace (snd (poll c w)) = trace w @ replicate (fst (poll c w) - c) Sleep"
proof (induction c w rule: poll.induct)
  case (1 c w)
  show ?case
  proof (cases "update_status w = UPDATING \<and> c < 5")
    case True
    have "c + 1 \<le> fst (poll (c + 1) (sleep_half w))" using poll_fst by blast
    then have "fst (poll (c + 1) (sleep_half w)) - c = Suc (fst (poll (c + 1) (sleep_half w)) - (c + 1))"
      by simp
    with True 1 show ?thesis
      by (simp add: poll_step)
  next
    case False
    then show ?thesis by (simp add: poll_stop)
  qed
qed

lemma poll_status:
  "c \<le> 5 \<Longrightarrow>
   (update_status (snd (poll c w)) = UPDATING) =
     (update_status w = UPDATING \<and> OtherMarksUpdated \<notin> set (take (5 - c) (pending w)))"
proof (induction c w rule: poll.induct)
  case (1 c w)
  show ?case
  proof (cases "update_status w = UPDATING \<and> c < 5")
    case True
    then have d: "5 - c = Suc (5 - (c + 1))" by arith
    show ?thesis using True 1
      apply (simp add: poll_step sleep_half_status)
      apply (subst d)
      apply (cases "pending w")
       apply (auto simp: sleep_half_status split: list.splits interference.splits)
      done
  next
    case False
    then show ?thesis using 1(2) by (auto simp: poll_stop)
  qed
qed

lemma poll_full:
  "update_status (snd (poll c w)) = UPDATING \<Longrightarrow> c \<le> 5 \<Longrightarrow> fst (poll c w) = 5"
proof (induction c w rule: poll.induct)
  case (1 c w)
  show ?case
  proof (cases "update_status w = UPDATING \<and> c < 5")
    case True
    with 1 show ?thesis by (simp add: poll_step)
  next
    case False
    with 1(2,3) show ?thesis by (auto simp: poll_stop)
  qed
qed

lemma poll_fields [simp]:
  "update_interval (snd (poll c w)) = update_interval w"
  "service_wrapper (snd (poll c w)) = service_wrapper w"
  "update_thread (snd (poll c w)) = update_thread w"
  "db (snd (poll c w)) = db w"
  "ttl_cache_for_service_names (snd (poll c w)) = ttl_cache_for_service_names w"
  "ttl_cache_for_services (snd (poll c w)) = ttl_cache_for_services w"
  "remote (snd (poll c w)) = remote w"
  "store_fault (snd (poll c w)) = store_fault w"
  by (induction c w rule: poll.induct;
      (subst poll.simps, simp split: if_splits))+


lemma emit_fields [simp]:
  "clock (emit e w) = clock w"
  "last_update_run (emit e w) = last_update_run w"
  "update_interval (emit e w) = update_interval w"
  "update_status (emit e w) = update_status w"
  "service_wrapper (emit e w) = service_wrapper w"
  "update_thread (emit e w) = update_thread w"
  "db (emit e w) = db w"
  "ttl_cache_for_service_names (emit e w) = ttl_cache_for_service_names w"
  "ttl_cache_for_services (emit e w) = ttl_cache_for_services w"
  "remote (emit e w) = remote w"
  "store_fault (emit e w) = store_fault w"
  "pending (emit e w) = pending w"
  "trace (emit e w) = trace w @ [e]"
  by (simp_all add: emit_def)

lemma check_last_update_run_emit [simp]:
  "check_last_update_run (emit e w) = check_last_update_run w"
  by (simp add: check_last_update_run_def split: option.splits)

lemma is_updating_emit [simp]: "is_updating (emit e w) = is_updating w"
  by (simp add: is_updating_def)

lemma is_updating_iff: "is_updating w = (update_status w = UPDATING)"
  by (cases "update_status w") (simp_all add: is_updating_def)

lemma go_admit:
  "check_last_update_run w \<Longrightarrow> update_status w \<noteq> UPDATING \<Longrightarrow>
   go_nogo_execute_update w =
     (True, emit LockRelease (mark_status_updating (emit LockAcquire w)))"
  by (simp add: go_nogo_execute_update_def Let_def is_updating_iff)

lemma go_wait:
  "\<not> (check_last_update_run w \<and> update_status w \<noteq> UPDATING) \<Longrightarrow>
   go_nogo_execute_update w =
     (update_status (snd (poll 0 (emit LockAcquire w))) = UPDATING,
      emit LockRelease (snd (poll 0 (emit LockAcquire w))))"
  by (auto simp: go_nogo_execute_update_def Let_def is_updating_iff split: prod.splits)

lemma mark_status_updating_fields [simp]:
  "clock (mark_status_updating w) = clock w"
  "last_update_run (mark_status_updating w) = last_update_run w"
  "update_interval (mark_status_updating w) = update_interval w"
  "update_status (mark_status_updating w) = UPDATING"
  "service_wrapper (mark_status_updating w) = service_wrapper w"
  "update_thread (mark_status_updating w) = update_thread w"
  "db (mark_status_updating w) = db w"
  "ttl_cache_for_service_names (mark_status_updating w) = ttl_cache_for_service_names w"
  "ttl_cache_for_services (mark_status_updating w) = ttl_cache_for_services w"
  "remote (mark_status_updating w) = remote w"
  "store_fault (mark_status_updating w) = store_fault w"
  "pending (mark_status_updating w) = pending w"
  "trace (mark_status_updating w) = trace w @ [SetStatus UPDATING]"
  by (simp_all add: mark_status_updating_def)

lemma mark_status_updated_fields [simp]:
  "clock (mark_status_updated w) = clock w"
  "last_update_run (mark_status_updated w) = Some (clock w)"
  "update_interval (mark_status_updated w) = update_interval w"
  "update_status (mark_status_updated w) = UPDATED"
  "service_wrapper (mark_status_updated w) = service_wrapper w"
  "update_thread (mark_status_updated w) = update_thread w"
  "db (mark_status_updated w) = db w"
  "ttl_cache_for_service_names (mark_status_updated w) = ttl_cache_for_service_names w"
  "ttl_cache_for_services (mark_status_updated w) = ttl_cache_for_services w"
  "remote (mark_status_updated w) = remote w"
  "store_fault (mark_status_updated w) = store_fault w"
  "pending (mark_status_updated w) = pending w"
  "trace (mark_status_updated w) = trace w @ [SetStatus UPDATED, SetLastRun (clock w)]"
  by (simp_all add: mark_status_updated_def)

lemma go_fields [simp]:
  "update_interval (snd (go_nogo_execute_update w)) = update_interval w"
  "service_wrapper (snd (go_nogo_execute_update w)) = service_wrapper w"
  "update_thread (snd (go_nogo_execute_update w)) = update_thread w"
  "db (snd (go_nogo_execute_update w)) = db w"
  "ttl_cache_for_service_names (snd (go_nogo_execute_update w)) = ttl_cache_for_service_names w"
  "ttl_cache_for_services (snd (go_nogo_execute_update w)) = ttl_cache_for_services w"
  "remote (snd (go_nogo_execute_update w)) = remote w"
  "store_fault (snd (go_nogo_execute_update w)) = store_fault w"
  by (cases "check_last_update_run w \<and> update_status w \<noteq> UPDATING";
      simp add: go_admit go_wait)+

lemma go_true_status:
  "fst (go_nogo_execute_update w) \<Longrightarrow> update_status (snd (go_nogo_execute_update w)) = UPDATING"
  by (cases "check_last_update_run w \<and> update_status w \<noteq> UPDATING")
     (simp_all add: go_admit go_wait)

lemma go_false_status:
  "\<not> fst (go_nogo_execute_update w) \<Longrightarrow> update_status (snd (go_nogo_execute_update w)) \<noteq> UPDATING"
  by (cases "check_last_update_run w \<and> update_status w \<noteq> UPDATING")
     (simp_all add: go_admit go_wait)

text \<open>
  Claim C2. \<^verbatim>\<open>go_nogo_execute_update\<close> decides in three cases. When the status is not
  \<^verbatim>\<open>UPDATING\<close> and there was no update yet, or the last one is at least
  \<^verbatim>\<open>update_interval\<close> old, it returns \<^verbatim>\<open>True\<close> and sets the status to \<^verbatim>\<open>UPDATING\<close>. When
  the status is \<^verbatim>\<open>UPDATING\<close> it sleeps at most five times half a second under the
  lock, and returns \<^verbatim>\<open>False\<close> if the status left \<^verbatim>\<open>UPDATING\<close> meanwhile (another thread
  marked it updated during one of those sleeps), \<^verbatim>\<open>True\<close> after five sleeps with the
  status still \<^verbatim>\<open>UPDATING\<close>. Otherwise (not updating, interval not elapsed) it returns
  \<^verbatim>\<open>False\<close> without sleeping and without touching the status.
\<close>

theorem go_nogo_execute_update_decides:
  "(update_status w \<noteq> UPDATING \<and>
      (last_update_run w = None \<or>
       (\<exists>t. last_update_run w = Some t \<and> update_interval w \<le> clock w - t))
    \<longrightarrow> fst (go_nogo_execute_update w)
        \<and> update_status (snd (go_nogo_execute_update w)) = UPDATING
        \<and> trace (snd (go_nogo_execute_update w)) =
            trace w @ [LockAcquire, SetStatus UPDATING, LockRelease])
   \<and> (update_status w = UPDATING
    \<longrightarrow> (\<exists>n\<le>5. trace (snd (go_nogo_execute_update w)) =
                   trace w @ [LockAcquire] @ replicate n Sleep @ [LockRelease]
               \<and> clock (snd (go_nogo_execute_update w)) = clock w + real n * (1 / 2)
               \<and> (fst (go_nogo_execute_update w) \<longrightarrow> n = 5))
        \<and> fst (go_nogo_execute_update w) =
            (update_status (snd (go_nogo_execute_update w)) = UPDATING)
        \<and> fst (go_nogo_execute_update w) =
            (OtherMarksUpdated \<notin> set (take 5 (pending w))))
   \<and> (update_status w \<noteq> UPDATING \<and>
      (\<exists>t. last_update_run w = Some t \<and> clock w - t < update_interval w)
    \<longrightarrow> \<not> fst (go_nogo_execute_update w)
        \<and> update_status (snd (go_nogo_execute_update w)) = update_status w
        \<and> trace (snd (go_nogo_execute_update w)) = trace w @ [LockAcquire, LockRelease])"
proof (intro conjI impI)
  assume a: "update_status w \<noteq> UPDATING \<and>
      (last_update_run w = None \<or>
       (\<exists>t. last_update_run w = Some t \<and> update_interval w \<le> clock w - t))"
  then have c: "check_last_update_run w"
    by (auto simp: check_last_update_run_def)
  from a c show "fst (go_nogo_execute_update w)"
    and "update_status (snd (go_nogo_execute_update w)) = UPDATING"
    and "trace (snd (go_nogo_execute_update w)) =
            trace w @ [LockAcquire, SetStatus UPDATING, LockRelease]"
    by (simp_all add: go_admit)
next
  assume u: "update_status w = UPDATING"
  let ?p = "poll 0 (emit LockAcquire w)"
  have g: "go_nogo_execute_update w =
     (update_status (snd ?p) = UPDATING, emit LockRelease (snd ?p))"
    using u by (simp add: go_wait)
  have n5: "fst ?p \<le> 5" using poll_fst [of 0 "emit LockAcquire w"] by simp
  show "\<exists>n\<le>5. trace (snd (go_nogo_execute_update w)) =
                   trace w @ [LockAcquire] @ replicate n Sleep @ [LockRelease]
               \<and> clock (snd (go_nogo_execute_update w)) = clock w + real n * (1 / 2)
               \<and> (fst (go_nogo_execute_update w) \<longrightarrow> n = 5)"
  proof (intro exI [of _ "fst ?p"] conjI impI)
    show "fst ?p \<le> 5" by (rule n5)
    show "trace (snd (go_nogo_execute_update w)) =
            trace w @ [LockAcquire] @ replicate (fst ?p) Sleep @ [LockRelease]"
      by (simp add: g poll_trace)
    show "clock (snd (go_nogo_execute_update w)) = clock w + real (fst ?p) * (1 / 2)"
      by (simp add: g poll_clock)
    assume "fst (go_nogo_execute_update w)"
    then show "fst ?p = 5" by (simp add: g poll_full)
  qed
  show "fst (go_nogo_execute_update w) =
            (update_status (snd (go_nogo_execute_update w)) = UPDATING)"
    by (simp add: g)
  show "fst (go_nogo_execute_update w) = (OtherMarksUpdated \<notin> set (take 5 (pending w)))"
    using u by (simp add: g poll_status)
next
  assume a: "update_status w \<noteq> UPDATING \<and>
      (\<exists>t. last_update_run w = Some t \<and> clock w - t < update_interval w)"
  then have c: "\<not> check_last_update_run w"
    by (auto simp: check_last_update_run_def)
  have p: "poll 0 (emit LockAcquire w) = (0, emit LockAcquire w)"
    using a by (simp add: poll_stop)
  from a c p show "\<not> fst (go_nogo_execute_update w)"
    and "update_status (snd (go_nogo_execute_update w)) = update_status w"
    and "trace (snd (go_nogo_execute_update w)) = trace w @ [LockAcquire, LockRelease]"
    by (simp_all add: go_wait)
qed


theorem go_nogo_execute_update_decides_witness:
  "update_status example_world \<noteq> UPDATING \<and> last_update_run example_world = None
     \<and> fst (go_nogo_execute_update example_world)
     \<and> update_status (snd (go_nogo_execute_update example_world)) = UPDATING
   \<and> update_status (example_world\<lparr>update_status := UPDATING,
          pending := [Quiet, OtherMarksUpdated]\<rparr>) = UPDATING
     \<and> \<not> fst (go_nogo_execute_update
          (example_world\<lparr>update_status := UPDATING, pending := [Quiet, OtherMarksUpdated]\<rparr>))
   \<and> update_status (example_world\<lparr>update_status := UPDATING\<rparr>) = UPDATING
     \<and> fst (go_nogo_execute_update (example_world\<lparr>update_status := UPDATING\<rparr>))
     \<and> clock (snd (go_nogo_execute_update (example_world\<lparr>update_status := UPDATING\<rparr>)))
         = 100 + 5 * (1 / 2)
   \<and> update_status (example_world\<lparr>update_status := UPDATED, last_update_run := Some 90\<rparr>)
         \<noteq> UPDATING
     \<and> clock example_world - 90 < update_interval example_world
     \<and> \<not> fst (go_nogo_execute_update
          (example_world\<lparr>update_status := UPDATED, last_update_run := Some 90\<rparr>))"
proof -
  let ?busy = "example_world\<lparr>update_status := UPDATING, pending := [Quiet, OtherMarksUpdated]\<rparr>"
  let ?stuck = "example_world\<lparr>update_status := UPDATING\<rparr>"
  let ?fresh = "example_world\<lparr>update_status := UPDATED, last_update_run := Some 90\<rparr>"
  have a: "update_status example_world \<noteq> UPDATING \<and> last_update_run example_world = None"
    by (simp add: example_world_def)
  have b: "update_status ?busy = UPDATING" by simp
  have c: "update_status ?stuck = UPDATING" by simp
  have d: "update_status ?fresh \<noteq> UPDATING \<and>
           (\<exists>t. last_update_run ?fresh = Some t \<and> clock ?fresh - t < update_interval ?fresh)"
    by (simp add: example_world_def)
  have pb: "OtherMarksUpdated \<in> set (take 5 (pending ?busy))" by simp
  have pc: "OtherMarksUpdated \<notin> set (take 5 (pending ?stuck))"
    by (simp add: example_world_def)
  from go_nogo_execute_update_decides [of example_world] a
  have 1: "fst (go_nogo_execute_update example_world)
     \<and> update_status (snd (go_nogo_execute_update example_world)) = UPDATING"
    by blast
  from go_nogo_execute_update_decides [of ?busy] b pb
  have 2: "\<not> fst (go_nogo_execute_update ?busy)" by blast
  from go_nogo_execute_update_decides [of ?stuck] c pc
  have 3: "fst (go_nogo_execute_update ?stuck)" by blast
  from go_nogo_execute_update_decides [of ?stuck] c 3
  have "\<exists>n\<le>5. clock (snd (go_nogo_execute_update ?stuck)) = clock ?stuck + real n * (1 / 2)
          \<and> n = 5"
    by blast
  then have 4: "clock (snd (go_nogo_execute_update ?stuck)) = 100 + 5 * (1 / 2)"
    by (auto simp: example_world_def)
  from go_nogo_execute_update_decides [of ?fresh] d
  have 5: "\<not> fst (go_nogo_execute_update ?fresh)" by blast
  from a b c d 1 2 3 4 5 show ?thesis
    by (simp add: example_world_def)
qed

section \<open>The refresh pipeline\<close>

lemma reload_services_fields [simp]:
  "clock (reload_services ps w) = clock w"
  "last_update_run (reload_services ps w) = last_update_run w"
  "update_interval (reload_services ps w) = update_interval w"
  "update_status (reload_services ps w) = update_status w"
  "update_thread (reload_services ps w) = update_thread w"
  "db (reload_services ps w) = db w"
  "ttl_cache_for_service_names (reload_services ps w) = ttl_cache_for_service_names w"
  "ttl_cache_for_services (reload_services ps w) = ttl_cache_for_services w"
  "remote (reload_services ps w) = remote w"
  "store_fault (reload_services ps w) = store_fault w"
  "pending (reload_services ps w) = pending w"
  "(service_wrapper (reload_services ps w) = None) = (service_wrapper w = None)"
  by (simp_all add: reload_services_def split: option.splits)

lemma reload_services_trace:
  "trace (reload_services ps w) =
     trace w @ (if service_wrapper w = None then [] else [Reload])"
  by (simp add: reload_services_def split: option.splits)

lemma clear_caches_fields [simp]:
  "clock (clear_caches w) = clock w"
  "last_update_run (clear_caches w) = last_update_run w"
  "update_interval (clear_caches w) = update_interval w"
  "update_status (clear_caches w) = update_status w"
  "service_wrapper (clear_caches w) = service_wrapper w"
  "update_thread (clear_caches w) = update_thread w"
  "db (clear_caches w) = db w"
  "ttl_cache_for_service_names (clear_caches w) = None"
  "ttl_cache_for_services (clear_caches w) = []"
  "remote (clear_caches w) = remote w"
  "store_fault (clear_caches w) = store_fault w"
  "pending (clear_caches w) = pending w"
  "trace (clear_caches w) = trace w @ [ClearCaches]"
  by (simp_all add: clear_caches_def)

lemma update_cache_skip:
  "\<not> fst (go_nogo_execute_update w) \<Longrightarrow>
   update_cache L w = (Inr False, snd (go_nogo_execute_update w))"
  by (cases "go_nogo_execute_update w") (simp add: update_cache_def)

lemma update_cache_fetch_fails:
  "fst (go_nogo_execute_update w) \<Longrightarrow> remote w = Inl e \<Longrightarrow>
   update_cache L w = (Inl e, emit Fetch (snd (go_nogo_execute_update w)))"
  by (cases "go_nogo_execute_update w")
     (use go_fields(7) [of w] in \<open>simp add: update_cache_def Let_def\<close>)

lemma update_cache_store_fails:
  "fst (go_nogo_execute_update w) \<Longrightarrow> remote w = Inr ps \<Longrightarrow> store_fault w \<Longrightarrow>
   update_cache L w =
     (Inl StoreFailure, reload_services ps (emit Fetch (snd (go_nogo_execute_update w))))"
  by (cases "go_nogo_execute_update w")
     (use go_fields(7,8) [of w] in \<open>simp add: update_cache_def Let_def replace_all_def\<close>)

lemma update_cache_succeeds:
  "fst (go_nogo_execute_update w) \<Longrightarrow> remote w = Inr ps \<Longrightarrow> \<not> store_fault w \<Longrightarrow>
   update_cache L w =
     (Inr True,
      mark_status_updated (clear_caches (emit Commit
        ((reload_services ps (emit Fetch (snd (go_nogo_execute_update w))))
           \<lparr>db := map (create L) ps\<rparr>))))"
  by (cases "go_nogo_execute_update w")
     (use go_fields(7,8) [of w] in \<open>simp add: update_cache_def Let_def replace_all_def\<close>)

lemma go_stuck:
  "update_status w = UPDATING \<Longrightarrow> OtherMarksUpdated \<notin> set (take 5 (pending w)) \<Longrightarrow>
   fst (go_nogo_execute_update w)"
  by (simp add: go_wait poll_status)

lemma go_fresh:
  "update_status w \<noteq> UPDATING \<Longrightarrow> last_update_run w = Some t \<Longrightarrow>
   clock w - t < update_interval w \<Longrightarrow>
   go_nogo_execute_update w = (False, emit LockRelease (emit LockAcquire w))"
  by (simp add: go_wait check_last_update_run_def poll_stop)

lemma go_trace:
  "trace (snd (go_nogo_execute_update w)) = trace w @ [LockAcquire, SetStatus UPDATING, LockRelease]
   \<or> (\<exists>n. trace (snd (go_nogo_execute_update w)) =
            trace w @ LockAcquire # replicate n Sleep @ [LockRelease])"
  by (cases "check_last_update_run w \<and> update_status w \<noteq> UPDATING")
     (auto simp: go_admit go_wait poll_trace)

lemma occurrences_simps [simp]:
  "occurrences e [] = 0"
  "occurrences e (x # xs) = (if x = e then Suc (occurrences e xs) else occurrences e xs)"
  "occurrences e (xs @ ys) = occurrences e xs + occurrences e ys"
  by (simp_all add: occurrences_def)

lemma occurrences_replicate:
  "occurrences e (replicate n x) = (if x = e then n else 0)"
  by (induction n) auto

lemma go_occurrences:
  "e \<noteq> LockAcquire \<Longrightarrow> e \<noteq> LockRelease \<Longrightarrow> e \<noteq> Sleep \<Longrightarrow> e \<noteq> SetStatus UPDATING \<Longrightarrow>
   occurrences e (trace (snd (go_nogo_execute_update w))) = occurrences e (trace w)"
  using go_trace [of w] by (auto simp: occurrences_replicate)

lemma go_lock_occurrences:
  "occurrences LockAcquire (trace (snd (go_nogo_execute_update w))) =
     Suc (occurrences LockAcquire (trace w))"
  using go_trace [of w] by (auto simp: occurrences_replicate)

lemma writes_sleeps: "writes h (replicate n Sleep @ es) = writes h es"
  by (induction n) simp_all

lemma writes_release:
  "writes h (xs @ LockRelease # y # ys) = writes h (xs @ [LockRelease]) @ writes False (y # ys)"
proof (induction xs arbitrary: h)
  case Nil
  show ?case by simp
next
  case (Cons x xs)
  then show ?case by (cases x) simp_all
qed

lemma go_writes:
  "trace w = [] \<Longrightarrow>
   writes False (trace (snd (go_nogo_execute_update w))) = [(SetStatus UPDATING, True)]
   \<or> writes False (trace (snd (go_nogo_execute_update w))) = []"
  using go_trace [of w] writes_sleeps [of True _ "[LockRelease]"] by auto

lemma go_ends_released:
  "\<exists>xs. trace (snd (go_nogo_execute_update w)) = trace w @ xs @ [LockRelease]"
  using go_trace [of w] by auto

lemma update_cache_succeeded:
  assumes "update_cache L w = (Inr True, w1)"
  shows "fst (go_nogo_execute_update w) \<and> (\<exists>ps. remote w = Inr ps) \<and> \<not> store_fault w"
proof -
  have adm: "fst (go_nogo_execute_update w)"
    using assms by (rule contrapos_pp) (simp add: update_cache_skip)
  moreover have "\<exists>ps. remote w = Inr ps"
  proof (cases "remote w")
    case (Inl e)
    with adm assms show ?thesis by (simp add: update_cache_fetch_fails)
  qed simp
  moreover have "\<not> store_fault w"
  proof
    assume "store_fault w"
    with adm \<open>\<exists>ps. remote w = Inr ps\<close> assms show False
      by (auto simp: update_cache_store_fails)
  qed
  ultimately show ?thesis by blast
qed

text \<open>
  Claim C1, as the code has it. \<^verbatim>\<open>update_cache\<close> has no \<^verbatim>\<open>try ... finally\<close>: the only call
  of \<^verbatim>\<open>mark_status_updated\<close> is its last statement. So for every run that the gate
  admits: when \<^verbatim>\<open>GraphQL.get_all\<close> and the transaction succeed, the run returns \<^verbatim>\<open>True\<close>
  with the status \<^verbatim>\<open>UPDATED\<close> and the time stamped; when \<^verbatim>\<open>GraphQL.get_all\<close> raises, or
  the transaction does (the table then is as it was), the exception leaves
  \<^verbatim>\<open>update_cache\<close> with the status still \<^verbatim>\<open>UPDATING\<close>. The gate itself keeps a stuck
  status from blocking for ever: a later \<^verbatim>\<open>go_nogo_execute_update\<close> that sees the status
  \<^verbatim>\<open>UPDATING\<close> through its five sleeps returns \<^verbatim>\<open>True\<close>.
\<close>

theorem update_cache_release:
  assumes "fst (go_nogo_execute_update w)"
  shows "((\<exists>ps. remote w = Inr ps) \<and> \<not> store_fault w \<longrightarrow>
            fst (update_cache L w) = Inr True
          \<and> update_status (snd (update_cache L w)) = UPDATED
          \<and> last_update_run (snd (update_cache L w)) = Some (clock (snd (update_cache L w))))
       \<and> (\<forall>e. remote w = Inl e \<longrightarrow>
            fst (update_cache L w) = Inl e
          \<and> update_status (snd (update_cache L w)) = UPDATING)
       \<and> ((\<exists>ps. remote w = Inr ps) \<and> store_fault w \<longrightarrow>
            fst (update_cache L w) = Inl StoreFailure
          \<and> update_status (snd (update_cache L w)) = UPDATING
          \<and> db (snd (update_cache L w)) = db w)
       \<and> (update_status (snd (update_cache L w)) = UPDATING \<longrightarrow>
            (\<forall>c ps. OtherMarksUpdated \<notin> set (take 5 ps) \<longrightarrow>
               fst (go_nogo_execute_update ((snd (update_cache L w))\<lparr>clock := c, pending := ps\<rparr>))))"
proof (intro conjI impI allI)
  assume a: "(\<exists>ps. remote w = Inr ps) \<and> \<not> store_fault w"
  then obtain ps where ps: "remote w = Inr ps" by blast
  from a ps assms show "fst (update_cache L w) = Inr True"
    and "update_status (snd (update_cache L w)) = UPDATED"
    and "last_update_run (snd (update_cache L w)) = Some (clock (snd (update_cache L w)))"
    by (simp_all add: update_cache_succeeds)
next
  fix e assume "remote w = Inl e"
  with assms show "fst (update_cache L w) = Inl e"
    and "update_status (snd (update_cache L w)) = UPDATING"
    by (simp_all add: update_cache_fetch_fails go_true_status)
next
  assume a: "(\<exists>ps. remote w = Inr ps) \<and> store_fault w"
  then obtain ps where ps: "remote w = Inr ps" by blast
  from a ps assms show "fst (update_cache L w) = Inl StoreFailure"
    and "update_status (snd (update_cache L w)) = UPDATING"
    and "db (snd (update_cache L w)) = db w"
    by (simp_all add: update_cache_store_fails go_true_status)
next
  fix c ps
  assume "update_status (snd (update_cache L w)) = UPDATING"
    and "OtherMarksUpdated \<notin> set (take 5 ps)"
  then show "fst (go_nogo_execute_update ((snd (update_cache L w))\<lparr>clock := c, pending := ps\<rparr>))"
    by (intro go_stuck) simp_all
qed

theorem update_cache_release_witness:
  "fst (go_nogo_execute_update example_world)
   \<and> fst (update_cache example_lib example_world) = Inr True
   \<and> update_status (snd (update_cache example_lib example_world)) = UPDATED
   \<and> fst (go_nogo_execute_update (example_world\<lparr>remote := Inl TransportFailure\<rparr>))
   \<and> fst (update_cache example_lib (example_world\<lparr>remote := Inl TransportFailure\<rparr>))
       = Inl TransportFailure
   \<and> fst (go_nogo_execute_update
        ((snd (update_cache example_lib (example_world\<lparr>remote := Inl TransportFailure\<rparr>)))
           \<lparr>clock := 200, pending := []\<rparr>))
   \<and> fst (go_nogo_execute_update (example_world\<lparr>store_fault := True\<rparr>))
   \<and> fst (update_cache example_lib (example_world\<lparr>store_fault := True\<rparr>)) = Inl StoreFailure
   \<and> db (snd (update_cache example_lib (example_world\<lparr>store_fault := True\<rparr>))) = []"
proof -
  let ?t = "example_world\<lparr>remote := Inl TransportFailure\<rparr>"
  let ?s = "example_world\<lparr>store_fault := True\<rparr>"
  have g: "fst (go_nogo_execute_update example_world)"
    by (simp add: go_admit example_world_def check_last_update_run_def)
  have gt: "fst (go_nogo_execute_update ?t)"
    by (simp add: go_admit example_world_def check_last_update_run_def)
  have gs: "fst (go_nogo_execute_update ?s)"
    by (simp add: go_admit example_world_def check_last_update_run_def)
  have r: "(\<exists>ps. remote example_world = Inr ps) \<and> \<not> store_fault example_world"
    by (simp add: example_world_def)
  have rt: "remote ?t = Inl TransportFailure" by simp
  have rs: "(\<exists>ps. remote ?s = Inr ps) \<and> store_fault ?s"
    by (simp add: example_world_def)
  have p: "OtherMarksUpdated \<notin> set (take 5 [])" by simp
  from update_cache_release [OF g, of example_lib] r
  have 1: "fst (update_cache example_lib example_world) = Inr True
     \<and> update_status (snd (update_cache example_lib example_world)) = UPDATED"
    by blast
  from update_cache_release [OF gt, of example_lib] rt
  have 2: "fst (update_cache example_lib ?t) = Inl TransportFailure
     \<and> update_status (snd (update_cache example_lib ?t)) = UPDATING"
    by blast
  from update_cache_release [OF gt, of example_lib] 2 p
  have 3: "fst (go_nogo_execute_update
        ((snd (update_cache example_lib ?t))\<lparr>clock := 200, pending := []\<rparr>))"
    by blast
  from update_cache_release [OF gs, of example_lib] rs
  have 4: "fst (update_cache example_lib ?s) = Inl StoreFailure
     \<and> db (snd (update_cache example_lib ?s)) = db ?s"
    by blast
  from g gt gs 1 2 3 4 show ?thesis by (simp add: example_world_def)
qed

text \<open>
  The claim as first stated (the status leaves \<^verbatim>\<open>UPDATING\<close> on every exit path) fails when
  the fetch raises: the run is admitted, the exception comes out, the status stays.
\<close>

theorem update_cache_counterexample:
  "fst (go_nogo_execute_update (example_world\<lparr>remote := Inl TransportFailure\<rparr>))
   \<and> fst (update_cache example_lib (example_world\<lparr>remote := Inl TransportFailure\<rparr>))
       = Inl TransportFailure
   \<and> update_status (snd (update_cache example_lib
        (example_world\<lparr>remote := Inl TransportFailure\<rparr>))) = UPDATING"
proof -
  let ?w = "example_world\<lparr>remote := Inl TransportFailure\<rparr>"
  have g: "go_nogo_execute_update ?w =
     (True, emit LockRelease (mark_status_updating (emit LockAcquire ?w)))"
    by (rule go_admit) (simp_all add: example_world_def check_last_update_run_def)
  have r: "remote ?w = Inl TransportFailure" by simp
  show ?thesis
    using g r by (simp add: update_cache_fetch_fails)
qed

text \<open>
  Claim C4, as the code has it. The only write inside \<^verbatim>\<open>with self.update_lock\<close> is the
  one of \<^verbatim>\<open>mark_status_updating\<close>: every write \<^verbatim>\<open>go_nogo_execute_update\<close> makes happens
  with the lock held. \<^verbatim>\<open>mark_status_updated\<close> is called by \<^verbatim>\<open>update_cache\<close> after the gate
  has released the lock: a run that succeeds adds exactly the write of the status
  \<^verbatim>\<open>UPDATED\<close> and the write of the time, both without the lock, and a run that does not
  succeed adds no write. (A sleeping holder of the lock can see the status change only
  because that write does not wait for the lock.)
\<close>

theorem controller_writes_and_lock:
  assumes "trace w = []"
  shows "(\<forall>x \<in> set (writes False (trace (snd (go_nogo_execute_update w)))). snd x)
       \<and> (fst (update_cache L w) = Inr True \<longrightarrow>
            writes False (trace (snd (update_cache L w))) =
              writes False (trace (snd (go_nogo_execute_update w)))
                @ [(SetStatus UPDATED, False),
                   (SetLastRun (clock (snd (update_cache L w))), False)])
       \<and> (fst (update_cache L w) \<noteq> Inr True \<longrightarrow>
            writes False (trace (snd (update_cache L w))) =
              writes False (trace (snd (go_nogo_execute_update w))))"
proof (intro conjI impI)
  show "\<forall>x \<in> set (writes False (trace (snd (go_nogo_execute_update w)))). snd x"
    using go_writes [OF assms] by auto
next
  obtain xs where xs: "trace (snd (go_nogo_execute_update w)) = xs @ [LockRelease]"
    using go_ends_released [of w] assms by auto
  {
    assume ok: "fst (update_cache L w) = Inr True"
    have adm: "fst (go_nogo_execute_update w)"
      using ok by (rule contrapos_pp) (simp add: update_cache_skip)
    show "writes False (trace (snd (update_cache L w))) =
              writes False (trace (snd (go_nogo_execute_update w)))
                @ [(SetStatus UPDATED, False),
                   (SetLastRun (clock (snd (update_cache L w))), False)]"
    proof (cases "remote w")
      case (Inl e)
      with adm ok show ?thesis by (simp add: update_cache_fetch_fails)
    next
      case (Inr ps)
      show ?thesis
      proof (cases "store_fault w")
        case True
        with adm Inr ok show ?thesis by (simp add: update_cache_store_fails)
      next
        case False
        with adm Inr show ?thesis
          by (simp add: update_cache_succeeds reload_services_trace xs writes_release)
      qed
    qed
  }
  {
    assume ko: "fst (update_cache L w) \<noteq> Inr True"
    show "writes False (trace (snd (update_cache L w))) =
              writes False (trace (snd (go_nogo_execute_update w)))"
    proof (cases "fst (go_nogo_execute_update w)")
      case False
      then show ?thesis by (simp add: update_cache_skip)
    next
      case adm: True
      show ?thesis
      proof (cases "remote w")
        case (Inl e)
        with adm show ?thesis
          by (simp add: update_cache_fetch_fails xs writes_release)
      next
        case (Inr ps)
        show ?thesis
        proof (cases "store_fault w")
          case True
          with adm Inr show ?thesis
            by (simp add: update_cache_store_fails reload_services_trace xs writes_release)
        next
          case False
          with adm Inr ko show ?thesis by (simp add: update_cache_succeeds)
        qed
      qed
    qed
  }
qed

theorem controller_writes_and_lock_witness:
  "trace example_world = []
   \<and> (SetStatus UPDATING, True)
        \<in> set (writes False (trace (snd (go_nogo_execute_update example_world))))
   \<and> fst (update_cache example_lib example_world) = Inr True
   \<and> writes False (trace (snd (update_cache example_lib example_world))) =
        writes False (trace (snd (go_nogo_execute_update example_world)))
          @ [(SetStatus UPDATED, False),
             (SetLastRun (clock (snd (update_cache example_lib example_world))), False)]
   \<and> fst (update_cache example_lib (example_world\<lparr>remote := Inl TransportFailure\<rparr>))
        \<noteq> Inr True
   \<and> writes False (trace (snd (update_cache example_lib
          (example_world\<lparr>remote := Inl TransportFailure\<rparr>)))) =
        writes False (trace (snd (go_nogo_execute_update
          (example_world\<lparr>remote := Inl TransportFailure\<rparr>))))"
proof -
  let ?t = "example_world\<lparr>remote := Inl TransportFailure\<rparr>"
  have e: "trace example_world = []" and et: "trace ?t = []"
    by (simp_all add: example_world_def)
  have g: "go_nogo_execute_update example_world =
     (True, emit LockRelease (mark_status_updating (emit LockAcquire example_world)))"
    by (rule go_admit) (simp_all add: example_world_def check_last_update_run_def)
  have gt: "go_nogo_execute_update ?t =
     (True, emit LockRelease (mark_status_updating (emit LockAcquire ?t)))"
    by (rule go_admit) (simp_all add: example_world_def check_last_update_run_def)
  have m: "(SetStatus UPDATING, True)
        \<in> set (writes False (trace (snd (go_nogo_execute_update example_world))))"
    by (simp add: g e)
  have ok: "fst (update_cache example_lib example_world) = Inr True"
    by (subst update_cache_succeeds [where ps = "[example_payload]"])
       (simp_all add: g, simp_all add: example_world_def)
  have ko: "fst (update_cache example_lib ?t) \<noteq> Inr True"
    by (subst update_cache_fetch_fails [where e = TransportFailure]) (simp_all add: gt)
  from controller_writes_and_lock [OF e, of example_lib] ok
  have 1: "writes False (trace (snd (update_cache example_lib example_world))) =
        writes False (trace (snd (go_nogo_execute_update example_world)))
          @ [(SetStatus UPDATED, False),
             (SetLastRun (clock (snd (update_cache example_lib example_world))), False)]"
    by blast
  from controller_writes_and_lock [OF et, of example_lib] ko
  have 2: "writes False (trace (snd (update_cache example_lib ?t))) =
        writes False (trace (snd (go_nogo_execute_update ?t)))"
    by blast
  from e m ok ko 1 2 show ?thesis by blast
qed

text \<open>
  The claim as first stated (every write under the lock) fails on any successful run: the
  last two writes are made without the lock.
\<close>

theorem mark_status_updated_counterexample:
  "writes False (trace (snd (update_cache example_lib example_world))) =
     [(SetStatus UPDATING, True), (SetStatus UPDATED, False), (SetLastRun 100, False)]"
proof -
  have g: "go_nogo_execute_update example_world =
     (True, emit LockRelease (mark_status_updating (emit LockAcquire example_world)))"
    by (rule go_admit) (simp_all add: example_world_def check_last_update_run_def)
  have "update_cache example_lib example_world =
     (Inr True,
      mark_status_updated (clear_caches (emit Commit
        ((reload_services [example_payload]
            (emit Fetch (snd (go_nogo_execute_update example_world))))
           \<lparr>db := map (create example_lib) [example_payload]\<rparr>))))"
    by (rule update_cache_succeeds) (simp_all add: g, simp_all add: example_world_def)
  then show ?thesis
    by (simp add: g reload_services_trace, simp add: example_world_def)
qed

text \<open>
  Claim C5. When \<^verbatim>\<open>update_cache\<close> has returned \<^verbatim>\<open>True\<close> and is called again at a time less
  than \<^verbatim>\<open>update_interval\<close> after the stamp of that run (whatever the remote side would
  answer by then), the second call returns \<^verbatim>\<open>False\<close>; it fetches nothing and writes
  nothing to the table, the wrapper or the caches, so the two calls together fetched once
  and committed once.
\<close>

theorem update_cache_twice:
  assumes first: "update_cache L w = (Inr True, w1)"
      and second: "w2 = w1\<lparr>clock := now, remote := r, store_fault := f, pending := ps\<rparr>"
      and within: "now - the (last_update_run w1) < update_interval w1"
  shows "fst (update_cache L w2) = Inr False
       \<and> occurrences Fetch (trace (snd (update_cache L w2))) = occurrences Fetch (trace w) + 1
       \<and> occurrences Commit (trace (snd (update_cache L w2))) = occurrences Commit (trace w) + 1
       \<and> occurrences Fetch (trace (snd (update_cache L w2))) = occurrences Fetch (trace w1)
       \<and> occurrences Commit (trace (snd (update_cache L w2))) = occurrences Commit (trace w1)
       \<and> db (snd (update_cache L w2)) = db w1
       \<and> service_wrapper (snd (update_cache L w2)) = service_wrapper w1
       \<and> ttl_cache_for_service_names (snd (update_cache L w2)) = ttl_cache_for_service_names w1
       \<and> ttl_cache_for_services (snd (update_cache L w2)) = ttl_cache_for_services w1
       \<and> update_status (snd (update_cache L w2)) = UPDATED
       \<and> last_update_run (snd (update_cache L w2)) = last_update_run w1"
proof -
  from update_cache_succeeded [OF first] obtain qs where
    adm: "fst (go_nogo_execute_update w)" and qs: "remote w = Inr qs" and nf: "\<not> store_fault w"
    by blast
  have w1: "w1 = mark_status_updated (clear_caches (emit Commit
        ((reload_services qs (emit Fetch (snd (go_nogo_execute_update w))))
           \<lparr>db := map (create L) qs\<rparr>)))"
    using first by (simp add: update_cache_succeeds [OF adm qs nf])
  have st: "update_status w2 \<noteq> UPDATING" "last_update_run w2 = Some (clock w1)"
    and iv: "update_interval w2 = update_interval w1" and cl: "clock w2 = now"
    by (simp_all add: second w1)
  have lr: "the (last_update_run w1) = clock w1" by (simp add: w1)
  have g2: "go_nogo_execute_update w2 = (False, emit LockRelease (emit LockAcquire w2))"
    using st within by (intro go_fresh) (simp_all add: iv cl lr)
  have u2: "update_cache L w2 = (Inr False, emit LockRelease (emit LockAcquire w2))"
    using update_cache_skip [of w2 L] by (simp add: g2)
  have t1f: "occurrences Fetch (trace w1) = occurrences Fetch (trace w) + 1"
    by (simp add: w1 reload_services_trace go_occurrences)
  have t1c: "occurrences Commit (trace w1) = occurrences Commit (trace w) + 1"
    by (simp add: w1 reload_services_trace go_occurrences)
  have t2: "trace w2 = trace w1" by (simp add: second)
  show ?thesis
    using t1f t1c by (simp add: u2 t2) (simp add: second w1)
qed

theorem update_cache_twice_witness:
  "update_cache example_lib example_world
     = (Inr True, snd (update_cache example_lib example_world))
   \<and> (130::real) - the (last_update_run (snd (update_cache example_lib example_world)))
       < update_interval (snd (update_cache example_lib example_world))
   \<and> fst (update_cache example_lib
        ((snd (update_cache example_lib example_world))
           \<lparr>clock := 130, remote := Inr [], store_fault := False, pending := []\<rparr>)) = Inr False
   \<and> occurrences Fetch (trace (snd (update_cache example_lib
        ((snd (update_cache example_lib example_world))
           \<lparr>clock := 130, remote := Inr [], store_fault := False, pending := []\<rparr>)))) = 1
   \<and> db (snd (update_cache example_lib
        ((snd (update_cache example_lib example_world))
           \<lparr>clock := 130, remote := Inr [], store_fault := False, pending := []\<rparr>)))
       = [create example_lib example_payload]"
proof -
  let ?w1 = "snd (update_cache example_lib example_world)"
  let ?w2 = "?w1\<lparr>clock := 130, remote := Inr [], store_fault := False, pending := []\<rparr>"
  have g: "go_nogo_execute_update example_world =
     (True, emit LockRelease (mark_status_updating (emit LockAcquire example_world)))"
    by (rule go_admit) (simp_all add: example_world_def check_last_update_run_def)
  have u: "update_cache example_lib example_world =
     (Inr True,
      mark_status_updated (clear_caches (emit Commit
        ((reload_services [example_payload]
            (emit Fetch (snd (go_nogo_execute_update example_world))))
           \<lparr>db := map (create example_lib) [example_payload]\<rparr>))))"
    by (rule update_cache_succeeds) (simp_all add: g, simp_all add: example_world_def)
  have first: "update_cache example_lib example_world = (Inr True, ?w1)"
    by (simp add: u)
  have within: "(130::real) - the (last_update_run ?w1) < update_interval ?w1"
    by (simp add: u g) (simp add: example_world_def)
  have d: "db ?w1 = [create example_lib example_payload]"
    by (simp add: u)
  have t: "occurrences Fetch (trace example_world) = 0"
    by (simp add: example_world_def)
  from update_cache_twice [where r = "Inr []" and f = False and ps = "[]", OF first refl within]
    d t first within
  show ?thesis by simp
qed

section \<open>Lookups\<close>

lemma count_slash_append [simp]:
  "count_slash (xs @ ys) = count_slash xs + count_slash ys"
  by (simp add: count_slash_def)

lemma count_slash_none: "(count_slash s = 0) = (CHR ''/'' \<notin> set s)"
  by (induction s) (auto simp: count_slash_def)

lemma split_slash_none: "CHR ''/'' \<notin> set s \<Longrightarrow> split_slash s = [s]"
proof -
  assume "CHR ''/'' \<notin> set s"
  then have d: "dropWhile (\<lambda>c. c \<noteq> CHR ''/'') s = []" by auto
  show ?thesis by (subst split_slash.simps) (simp only: d list.case)
qed

lemma split_slash_one:
  assumes "CHR ''/'' \<notin> set ow" and "CHR ''/'' \<notin> set nm"
  shows "split_slash (ow @ ''/'' @ nm) = [ow, nm]"
proof -
  have d: "dropWhile (\<lambda>c. c \<noteq> CHR ''/'') (ow @ ''/'' @ nm) = CHR ''/'' # nm"
    using assms(1) by (subst dropWhile_append2) auto
  have t: "takeWhile (\<lambda>c. c \<noteq> CHR ''/'') (ow @ ''/'' @ nm) = ow"
    using assms(1) by (subst takeWhile_append2) auto
  show ?thesis
    by (subst split_slash.simps) (simp only: d t list.case split_slash_none [OF assms(2)])
qed

lemma one_slash_parts:
  assumes "count_slash a = 1"
  shows "a = takeWhile (\<lambda>c. c \<noteq> CHR ''/'') a @ ''/'' @ tl (dropWhile (\<lambda>c. c \<noteq> CHR ''/'') a)
       \<and> CHR ''/'' \<notin> set (takeWhile (\<lambda>c. c \<noteq> CHR ''/'') a)
       \<and> CHR ''/'' \<notin> set (tl (dropWhile (\<lambda>c. c \<noteq> CHR ''/'') a))"
proof -
  let ?p = "\<lambda>c. c \<noteq> CHR ''/''"
  have t: "CHR ''/'' \<notin> set (takeWhile ?p a)"
    by (auto dest: set_takeWhileD)
  have a: "a = takeWhile ?p a @ dropWhile ?p a" by simp
  have "count_slash a = count_slash (takeWhile ?p a) + count_slash (dropWhile ?p a)"
    by (subst a) (simp only: count_slash_append)
  with assms count_slash_none [THEN iffD2, OF t] have c: "count_slash (dropWhile ?p a) = 1"
    by simp
  have ne: "dropWhile ?p a \<noteq> []"
  proof
    assume "dropWhile ?p a = []"
    with c show False by (simp only: count_slash_def filter.simps list.size)
  qed
  then have h: "hd (dropWhile ?p a) = CHR ''/''"
    using hd_dropWhile [of ?p a] by simp
  from ne h have d: "dropWhile ?p a = CHR ''/'' # tl (dropWhile ?p a)"
    by (cases "dropWhile ?p a") simp_all
  have "count_slash (dropWhile ?p a) = 1 + count_slash (tl (dropWhile ?p a))"
    by (subst d) (simp add: count_slash_def)
  with c have "count_slash (tl (dropWhile ?p a)) = 0" by simp
  then have "CHR ''/'' \<notin> set (tl (dropWhile ?p a))"
    by (simp add: count_slash_none)
  moreover have "a = takeWhile ?p a @ ''/'' @ tl (dropWhile ?p a)"
    using a d by (metis append_Cons append_Nil)
  ultimately show ?thesis using t by blast
qed

lemma split_slash_counted:
  "count_slash a = 1 \<Longrightarrow>
   split_slash a = [takeWhile (\<lambda>c. c \<noteq> CHR ''/'') a, tl (dropWhile (\<lambda>c. c \<noteq> CHR ''/'') a)]"
  using one_slash_parts [of a] split_slash_one by metis

lemma underscore_get_query:
  "underscore_get alias0 owner0 name0 w =
     (Inr (store_query alias0 owner0 name0 (db w)), emit Query w)"
  by (cases alias0)
     (simp_all add: underscore_get_def store_query_def truthy_def split_slash_counted)

lemma create_fields [simp]:
  "service_uuid (create L p) = p_serviceUuid p"
  "name (create L p) = p_name p"
  "alias (create L p) = p_alias p"
  "username (create L p) = p_username p"
  "description (create L p) = p_description p"
  "certified (create L p) = p_isCertified p"
  "is_public (create L p) = p_public p"
  "topics (create L p) = Some (json_dumps L (p_topics p))"
  "state (create L p) = p_state p"
  "configuration (create L p) = Some (json_dumps L (p_configuration p))"
  "readme (create L p) = p_readme p"
  "raw_data (create L p) = json_dumps L (payload_dict p)"
  by (simp_all add: create_def)

lemma go_fst:
  "fst (go_nogo_execute_update w) =
     (if check_last_update_run w \<and> update_status w \<noteq> UPDATING then True
      else update_status w = UPDATING \<and> OtherMarksUpdated \<notin> set (take 5 (pending w)))"
  by (cases "check_last_update_run w \<and> update_status w \<noteq> UPDATING")
     (auto simp: go_admit go_wait poll_status)

lemma go_fst_emit [simp]:
  "fst (go_nogo_execute_update (emit e w)) = fst (go_nogo_execute_update w)"
  by (simp add: go_fst)

lemma update_cache_fst:
  "fst (update_cache L w) =
     (if \<not> fst (go_nogo_execute_update w) then Inr False
      else case remote w of
             Inl e \<Rightarrow> Inl e
           | Inr ps \<Rightarrow> (if store_fault w then Inl StoreFailure else Inr True))"
  by (cases "fst (go_nogo_execute_update w)"; cases "remote w"; cases "store_fault w")
     (simp_all add: update_cache_skip update_cache_fetch_fails update_cache_store_fails
        update_cache_succeeds)

lemma update_cache_db:
  "db (snd (update_cache L w)) =
     (case fst (update_cache L w) of
        Inr True \<Rightarrow> (case remote w of Inr ps \<Rightarrow> map (create L) ps | Inl e \<Rightarrow> db w)
      | _ \<Rightarrow> db w)"
  by (cases "fst (go_nogo_execute_update w)"; cases "remote w"; cases "store_fault w")
     (simp_all add: update_cache_skip update_cache_fetch_fails update_cache_store_fails
        update_cache_succeeds)

lemma update_cache_wrapper [simp]:
  "(service_wrapper (snd (update_cache L w)) = None) = (service_wrapper w = None)"
  by (cases "fst (go_nogo_execute_update w)"; cases "remote w"; cases "store_fault w")
     (simp_all add: update_cache_skip update_cache_fetch_fails update_cache_store_fails
        update_cache_succeeds)

lemma update_cache_lock_occurrences:
  "occurrences LockAcquire (trace (snd (update_cache L w))) =
     Suc (occurrences LockAcquire (trace w))"
  by (cases "fst (go_nogo_execute_update w)"; cases "remote w"; cases "store_fault w")
     (simp_all add: update_cache_skip update_cache_fetch_fails update_cache_store_fails
        update_cache_succeeds go_lock_occurrences reload_services_trace)

lemma update_cache_fetch_occurrences:
  "occurrences Fetch (trace (snd (update_cache L w))) =
     occurrences Fetch (trace w) + (if fst (go_nogo_execute_update w) then 1 else 0)"
  by (cases "fst (go_nogo_execute_update w)"; cases "remote w"; cases "store_fault w")
     (simp_all add: update_cache_skip update_cache_fetch_fails update_cache_store_fails
        update_cache_succeeds go_occurrences reload_services_trace)

lemma update_cache_other_occurrences:
  "e = Query \<or> e = RetryAcquire \<or> e = RetryRelease \<or> e = WrapperGet \<or> e = ThreadStart \<Longrightarrow>
   occurrences e (trace (snd (update_cache L w))) = occurrences e (trace w)"
  by (cases "fst (go_nogo_execute_update w)"; cases "remote w"; cases "store_fault w")
     (auto simp: update_cache_skip update_cache_fetch_fails update_cache_store_fails
        update_cache_succeeds go_occurrences reload_services_trace)

lemma update_cache_emit_fst [simp]:
  "fst (update_cache L (emit e w)) = fst (update_cache L w)"
  by (simp add: update_cache_fst)

lemma retry_miss:
  assumes "store_query a ow nm (db w) = None"
  shows "retry L a ow nm w =
     (case update_cache L (emit Query (emit RetryAcquire w)) of
        (Inl e, w3) \<Rightarrow> (Inl e, emit RetryRelease w3)
      | (Inr did, w3) \<Rightarrow>
          (Inr (store_query a ow nm (db w3)), emit RetryRelease (emit Query w3)))"
  using assms
  by (simp add: retry_def underscore_get_query Let_def split: prod.splits sum.splits)

lemma locate_miss:
  assumes "service_wrapper w = None \<or>
           (\<exists>loaded. service_wrapper w = Some loaded \<and> wrapper_get L loaded a ow nm = None)"
      and "store_query a ow nm (db w) = None"
  shows "locate L a ow nm w =
           retry L a ow nm
             (emit Query (if service_wrapper w = None then w else emit WrapperGet w))"
  using assms by (auto simp: locate_def underscore_get_query Let_def)

lemma get_uncached_world: "snd (get_uncached L a ow nm wrap w) = snd (locate L a ow nm w)"
  by (simp add: get_uncached_def split: prod.splits sum.splits option.splits)

lemma get_uncached_raises:
  "fst (locate L a ow nm w) = Inl e \<Longrightarrow> fst (get_uncached L a ow nm wrap w) = Inl e"
  by (cases "locate L a ow nm w") (simp add: get_uncached_def)

lemma get_uncached_absent:
  "fst (locate L a ow nm w) = Inr None \<Longrightarrow> fst (get_uncached L a ow nm wrap w) = Inr None"
  by (cases "locate L a ow nm w") (simp add: get_uncached_def)

lemma update_cache_trace_prefix:
  "\<exists>rest. trace (snd (update_cache L w)) = trace w @ LockAcquire # rest"
proof -
  from go_trace [of w] obtain g where
    g: "trace (snd (go_nogo_execute_update w)) = trace w @ LockAcquire # g"
    by auto
  show ?thesis
    by (cases "fst (go_nogo_execute_update w)"; cases "remote w"; cases "store_fault w")
       (simp_all add: update_cache_skip update_cache_fetch_fails update_cache_store_fails
          update_cache_succeeds reload_services_trace g)
qed

lemma locate_miss_refresh:
  assumes wr: "service_wrapper w = None \<or>
           (\<exists>loaded. service_wrapper w = Some loaded \<and> wrapper_get L loaded a ow nm = None)"
      and miss: "store_query a ow nm (db w) = None"
  shows "\<exists>wq. fst (update_cache L wq) = fst (update_cache L w)
            \<and> db wq = db w \<and> remote wq = remote w
            \<and> occurrences LockAcquire (trace wq) = occurrences LockAcquire (trace w)
            \<and> occurrences Fetch (trace wq) = occurrences Fetch (trace w)
            \<and> occurrences Query (trace wq) = occurrences Query (trace w) + 2
            \<and> fst (go_nogo_execute_update wq) = fst (go_nogo_execute_update w)
            \<and> trace wq = trace w @ (if service_wrapper w = None then [] else [WrapperGet])
                             @ [Query, RetryAcquire, Query]
            \<and> locate L a ow nm w =
               (case update_cache L wq of
                  (Inl e, w3) \<Rightarrow> (Inl e, emit RetryRelease w3)
                | (Inr did, w3) \<Rightarrow>
                    (Inr (store_query a ow nm (db w3)), emit RetryRelease (emit Query w3)))"
proof -
  let ?w0 = "emit Query (if service_wrapper w = None then w else emit WrapperGet w)"
  let ?wq = "emit Query (emit RetryAcquire ?w0)"
  have l: "locate L a ow nm w = retry L a ow nm ?w0"
    using wr miss by (rule locate_miss)
  have d0: "db ?w0 = db w" by simp
  have r: "retry L a ow nm ?w0 =
     (case update_cache L ?wq of
        (Inl e, w3) \<Rightarrow> (Inl e, emit RetryRelease w3)
      | (Inr did, w3) \<Rightarrow>
          (Inr (store_query a ow nm (db w3)), emit RetryRelease (emit Query w3)))"
    by (rule retry_miss) (simp only: d0 miss)
  show ?thesis
    by (rule exI [of _ ?wq]) (simp add: l r)
qed

lemma get_uncached_miss_refresh:
  fixes L a ow nm wrap w
  defines "r \<equiv> get_uncached L a ow nm wrap w"
  assumes wr: "service_wrapper w = None \<or>
           (\<exists>loaded. service_wrapper w = Some loaded \<and> wrapper_get L loaded a ow nm = None)"
      and miss: "fst (underscore_get a ow nm w) = Inr None"
  shows "occurrences LockAcquire (trace (snd r)) = occurrences LockAcquire (trace w) + 1
       \<and> occurrences Fetch (trace (snd r)) \<le> occurrences Fetch (trace w) + 1
       \<and> (\<exists>rest. trace (snd r) =
             trace w @ (if service_wrapper w = None then [] else [WrapperGet])
               @ [Query, RetryAcquire, Query, LockAcquire] @ rest @ [RetryRelease])
       \<and> (\<forall>e. fst (go_nogo_execute_update w) \<and> remote w = Inl e \<longrightarrow>
            fst r = Inl e \<and> occurrences Query (trace (snd r)) = occurrences Query (trace w) + 2)
       \<and> (fst (go_nogo_execute_update w) \<and> (\<exists>ps. remote w = Inr ps) \<and> store_fault w \<longrightarrow>
            fst r = Inl StoreFailure
          \<and> occurrences Query (trace (snd r)) = occurrences Query (trace w) + 2)
       \<and> (\<not> fst (go_nogo_execute_update w) \<or> ((\<exists>ps. remote w = Inr ps) \<and> \<not> store_fault w) \<longrightarrow>
            occurrences Query (trace (snd r)) = occurrences Query (trace w) + 3
          \<and> (fst (underscore_get a ow nm (snd r)) = Inr None \<longrightarrow> fst r = Inr None)
          \<and> (fst r = Inr None \<longrightarrow> fst (underscore_get a ow nm (snd r)) = Inr None))"
proof -
  from miss have m: "store_query a ow nm (db w) = None"
    by (simp add: underscore_get_query)
  from locate_miss_refresh [OF wr m] obtain wq where
    u: "fst (update_cache L wq) = fst (update_cache L w)"
    and la: "occurrences LockAcquire (trace wq) = occurrences LockAcquire (trace w)"
    and fe: "occurrences Fetch (trace wq) = occurrences Fetch (trace w)"
    and qu: "occurrences Query (trace wq) = occurrences Query (trace w) + 2"
    and g: "fst (go_nogo_execute_update wq) = fst (go_nogo_execute_update w)"
    and tq: "trace wq = trace w @ (if service_wrapper w = None then [] else [WrapperGet])
                             @ [Query, RetryAcquire, Query]"
    and l: "locate L a ow nm w =
               (case update_cache L wq of
                  (Inl e, w3) \<Rightarrow> (Inl e, emit RetryRelease w3)
                | (Inr did, w3) \<Rightarrow>
                    (Inr (store_query a ow nm (db w3)), emit RetryRelease (emit Query w3)))"
    by blast
  obtain x w3 where c: "update_cache L wq = (x, w3)" by (cases "update_cache L wq")
  have x: "x = fst (update_cache L w)" using c u by simp
  have w3: "w3 = snd (update_cache L wq)" using c by simp
  have tr: "trace (snd r) = trace w3 @ (case x of Inl e \<Rightarrow> [RetryRelease] | Inr d \<Rightarrow> [Query, RetryRelease])"
    by (simp add: r_def get_uncached_world l c split: sum.splits)
  have lock: "occurrences LockAcquire (trace (snd r)) = occurrences LockAcquire (trace w) + 1"
    by (simp add: tr w3 update_cache_lock_occurrences la split: sum.splits)
  have fetch: "occurrences Fetch (trace (snd r)) \<le> occurrences Fetch (trace w) + 1"
    by (simp add: tr w3 update_cache_fetch_occurrences fe split: sum.splits)
  from update_cache_trace_prefix [of L wq] obtain rest0 where
    "trace w3 = trace wq @ LockAcquire # rest0" by (auto simp: w3)
  then have shape: "\<exists>rest. trace (snd r) =
             trace w @ (if service_wrapper w = None then [] else [WrapperGet])
               @ [Query, RetryAcquire, Query, LockAcquire] @ rest @ [RetryRelease]"
    by (cases x) (simp_all add: tr tq)
  have q3: "occurrences Query (trace w3) = occurrences Query (trace w) + 2"
    by (simp add: w3 update_cache_other_occurrences qu)
  have raise: "fst r = Inl e \<and> occurrences Query (trace (snd r)) = occurrences Query (trace w) + 2"
    if "x = Inl e" for e
  proof -
    have "fst (locate L a ow nm w) = Inl e" using that by (simp add: l c)
    then have "fst r = Inl e" unfolding r_def by (rule get_uncached_raises)
    then show ?thesis using that by (simp add: tr q3)
  qed
  have fine: "occurrences Query (trace (snd r)) = occurrences Query (trace w) + 3
          \<and> (fst (underscore_get a ow nm (snd r)) = Inr None \<longrightarrow> fst r = Inr None)
          \<and> (fst r = Inr None \<longrightarrow> fst (underscore_get a ow nm (snd r)) = Inr None)"
    if "x = Inr d" for d
  proof -
    have lo: "locate L a ow nm w =
        (Inr (store_query a ow nm (db w3)), emit RetryRelease (emit Query w3))"
      using that by (simp add: l c)
    have dbr: "db (snd r) = db w3"
      by (simp add: r_def get_uncached_world lo)
    have 1: "occurrences Query (trace (snd r)) = occurrences Query (trace w) + 3"
      using that by (simp add: tr q3)
    have 2: "fst r = Inr None" if "store_query a ow nm (db w3) = None"
      unfolding r_def by (rule get_uncached_absent) (simp add: lo that)
    have 3: "store_query a ow nm (db w3) = None" if "fst r = Inr None"
      using that unfolding r_def
      by (simp add: get_uncached_def lo split: option.splits sum.splits)
    from 1 2 3 show ?thesis by (auto simp: underscore_get_query dbr)
  qed
  show ?thesis
  proof (intro conjI allI impI)
    show "occurrences LockAcquire (trace (snd r)) = occurrences LockAcquire (trace w) + 1"
      by (rule lock)
    show "occurrences Fetch (trace (snd r)) \<le> occurrences Fetch (trace w) + 1"
      by (rule fetch)
    show "\<exists>rest. trace (snd r) =
             trace w @ (if service_wrapper w = None then [] else [WrapperGet])
               @ [Query, RetryAcquire, Query, LockAcquire] @ rest @ [RetryRelease]"
      by (rule shape)
  next
    fix e assume "fst (go_nogo_execute_update w) \<and> remote w = Inl e"
    then have "x = Inl e" by (simp add: x update_cache_fst)
    from raise [OF this] show "fst r = Inl e"
      and "occurrences Query (trace (snd r)) = occurrences Query (trace w) + 2" by simp_all
  next
    assume "fst (go_nogo_execute_update w) \<and> (\<exists>ps. remote w = Inr ps) \<and> store_fault w"
    then have "x = Inl StoreFailure" by (auto simp: x update_cache_fst)
    from raise [OF this] show "fst r = Inl StoreFailure"
      and "occurrences Query (trace (snd r)) = occurrences Query (trace w) + 2" by simp_all
  next
    assume "\<not> fst (go_nogo_execute_update w) \<or> ((\<exists>ps. remote w = Inr ps) \<and> \<not> store_fault w)"
    then have "\<exists>d. x = Inr d" by (auto simp: x update_cache_fst)
    then obtain d where d: "x = Inr d" by blast
    from fine [OF d]
    show "occurrences Query (trace (snd r)) = occurrences Query (trace w) + 3"
      and "fst (underscore_get a ow nm (snd r)) = Inr None \<Longrightarrow> fst r = Inr None"
      and "fst r = Inr None \<Longrightarrow> fst (underscore_get a ow nm (snd r)) = Inr None"
      by simp_all
  qed
qed

lemma get_past_cache:
  assumes "cache_lookup (a, ow, nm, wrap) w = None"
  shows "fst (get L a ow nm wrap w) = fst (get_uncached L a ow nm wrap w)
       \<and> trace (snd (get L a ow nm wrap w)) = trace (snd (get_uncached L a ow nm wrap w))
       \<and> db (snd (get L a ow nm wrap w)) = db (snd (get_uncached L a ow nm wrap w))"
  using assms
  by (cases "get_uncached L a ow nm wrap w")
     (simp add: get_def cache_store_def Let_def split: sum.splits)

lemma locate_wrapper:
  "(service_wrapper (snd (locate L a ow nm w)) = None) = (service_wrapper w = None)"
proof -
  have r: "(service_wrapper (snd (retry L a ow nm v)) = None) = (service_wrapper v = None)" for v
  proof (cases "update_cache L (emit Query (emit RetryAcquire v))")
    case (Pair x w3)
    have "(service_wrapper w3 = None) = (service_wrapper v = None)"
      using update_cache_wrapper [of L "emit Query (emit RetryAcquire v)"] Pair by simp
    with Pair show ?thesis
      by (simp add: retry_def underscore_get_query Let_def split: option.splits sum.splits)
  qed
  have r2: "\<exists>y. service_wrapper (snd (retry L a ow nm v)) = Some y"
    if "service_wrapper v = Some x" for v x
    using r [of v] that by auto
  show ?thesis
  proof (cases "service_wrapper w")
    case None
    then show ?thesis
      by (simp add: locate_def underscore_get_query Let_def r split: option.splits)
  next
    case (Some loaded)
    have "service_wrapper (emit Query (emit WrapperGet w)) = Some loaded"
      using Some by simp
    from r2 [OF this] Some show ?thesis
      by (auto simp: locate_def underscore_get_query Let_def split: option.splits)
  qed
qed

lemma loads_column_ok:
  "(\<forall>x. col = Some x \<longrightarrow> json_loads L x \<noteq> None) \<Longrightarrow>
   loads_column L col = Inr (Option.bind col (json_loads L))"
  by (cases col) (auto simp: loads_column_def)

lemma get_uncached_found:
  assumes "locate L a ow nm w = (Inr (Some s), w')"
  shows "(wrap \<or> service_wrapper w \<noteq> None \<longrightarrow>
            get_uncached L a ow nm wrap w =
              (case json_loads L (raw_data s) of
                 None \<Rightarrow> (Inl JSONDecodeError, w')
               | Some d \<Rightarrow> (Inr (Some (Wrapped (JDict [(''service_data'', d)]))), w')))
       \<and> (\<not> wrap \<and> service_wrapper w = None
            \<and> (\<forall>x. topics s = Some x \<longrightarrow> json_loads L x \<noteq> None)
            \<and> (\<forall>x. configuration s = Some x \<longrightarrow> json_loads L x \<noteq> None) \<longrightarrow>
            get_uncached L a ow nm wrap w =
              (Inr (Some (Plain (with_structured s
                  (Option.bind (topics s) (json_loads L))
                  (Option.bind (configuration s) (json_loads L))))), w'))"
proof -
  have sw: "(service_wrapper w' = None) = (service_wrapper w = None)"
    using locate_wrapper [of L a ow nm w] assms by simp
  show ?thesis
  proof (intro conjI impI)
    assume "wrap \<or> service_wrapper w \<noteq> None"
    then have "wrap \<or> service_wrapper w' \<noteq> None" using sw by simp
    then show "get_uncached L a ow nm wrap w =
              (case json_loads L (raw_data s) of
                 None \<Rightarrow> (Inl JSONDecodeError, w')
               | Some d \<Rightarrow> (Inr (Some (Wrapped (JDict [(''service_data'', d)]))), w'))"
      by (auto simp: get_uncached_def assms present_def split: option.splits)
  next
    assume a: "\<not> wrap \<and> service_wrapper w = None
            \<and> (\<forall>x. topics s = Some x \<longrightarrow> json_loads L x \<noteq> None)
            \<and> (\<forall>x. configuration s = Some x \<longrightarrow> json_loads L x \<noteq> None)"
    then have n: "\<not> (wrap \<or> service_wrapper w' \<noteq> None)" using sw by simp
    from a have t: "loads_column L (topics s) = Inr (Option.bind (topics s) (json_loads L))"
      and c: "loads_column L (configuration s) =
                Inr (Option.bind (configuration s) (json_loads L))"
      by (simp_all add: loads_column_ok)
    show "get_uncached L a ow nm wrap w =
              (Inr (Some (Plain (with_structured s
                  (Option.bind (topics s) (json_loads L))
                  (Option.bind (configuration s) (json_loads L))))), w')"
      using n by (simp add: get_uncached_def assms present_def t c)
  qed
qed

lemma locate_found_in_table:
  assumes "service_wrapper w = None" and "store_query a ow nm (db w) = Some s"
  shows "locate L a ow nm w = (Inr (Some s), emit Query w)"
  using assms by (simp add: locate_def underscore_get_query)

lemma find_created:
  assumes "p \<in> set ps"
      and "\<forall>q\<in>set ps. p_username q = p_username p \<and> p_name q = p_name p \<longrightarrow> q = p"
  shows "select_by_owner_name (Some (p_username p)) (Some (p_name p)) (map (create L) ps)
           = Some (create L p)"
  using assms
proof (induction ps)
  case Nil
  then show ?case by simp
next
  case (Cons q ps)
  show ?case
  proof (cases "p_username q = p_username p \<and> p_name q = p_name p")
    case True
    with Cons.prems(2) have "q = p" by simp
    then show ?thesis by (simp add: select_by_owner_name_def)
  next
    case False
    with Cons.prems have "p \<in> set ps"
      and "\<forall>q\<in>set ps. p_username q = p_username p \<and> p_name q = p_name p \<longrightarrow> q = p"
      by auto
    from Cons.IH [OF this] False show ?thesis
      by (auto simp: select_by_owner_name_def)
  qed
qed

lemma cache_lookup_empty: "ttl_cache_for_services w = [] \<Longrightarrow> cache_lookup k w = None"
  by (simp add: cache_lookup_def)

lemma collect_names_concat:
  "collect_names acc rows =
     acc @ concat (map (\<lambda>s. (if truthy (alias s) then [the (alias s)] else [])
                            @ [username s @ ''/'' @ name s]) rows)"
  by (induction rows arbitrary: acc) simp_all

lemma collect_names_mset:
  "mset (collect_names [] (map (create L) ps)) =
     image_mset (\<lambda>p. p_username p @ ''/'' @ p_name p) (mset ps)
       + image_mset (\<lambda>p. the (p_alias p)) (filter_mset (\<lambda>p. truthy (p_alias p)) (mset ps))"
  by (induction ps) (simp_all add: collect_names_concat)

lemma init_without_wrapper:
  "init L auto_update False interval env =
     (let w = env\<lparr>last_update_run := None, update_interval := interval,
                  update_status := IDLE, service_wrapper := None, update_thread := False\<rparr>
      in (Inr (), if auto_update then emit ThreadStart (w\<lparr>update_thread := True\<rparr>) else w))"
  by (simp add: init_def Let_def)

lemma init_with_wrapper:
  "init L auto_update True interval env =
     (case update_cache L (env\<lparr>last_update_run := None, update_interval := interval,
                  update_status := IDLE, service_wrapper := None, update_thread := False,
                  service_wrapper := Some []\<rparr>) of
        (Inl e, w') \<Rightarrow> (Inl e, w')
      | (Inr did, w') \<Rightarrow>
          (Inr (), if auto_update then emit ThreadStart (w'\<lparr>update_thread := True\<rparr>) else w'))"
  by (simp add: init_def Let_def split: prod.splits sum.splits)

lemma example_loads:
  "json_loads example_lib (json_dumps example_lib (p_topics example_payload))
     = Some (p_topics example_payload)"
  "json_loads example_lib (json_dumps example_lib (p_configuration example_payload))
     = Some (p_configuration example_payload)"
  "json_loads example_lib (json_dumps example_lib (payload_dict example_payload))
     = Some (payload_dict example_payload)"
  by (simp_all add: example_lib_def example_payload_def payload_dict_def json_opt_def
        show_int_def show_nat.simps)

lemma example_admitted:
  "go_nogo_execute_update example_world =
     (True, emit LockRelease (mark_status_updating (emit LockAcquire example_world)))"
  by (rule go_admit) (simp_all add: example_world_def check_last_update_run_def)

lemma example_refreshed:
  "update_cache example_lib example_world =
     (Inr True,
      mark_status_updated (clear_caches (emit Commit
        ((reload_services [example_payload]
            (emit Fetch (snd (go_nogo_execute_update example_world))))
           \<lparr>db := map (create example_lib) [example_payload]\<rparr>))))"
  by (rule update_cache_succeeds) (simp_all add: example_admitted, simp_all add: example_world_def)

lemma get_miss_table:
  assumes wr: "service_wrapper w = None \<or>
           (\<exists>loaded. service_wrapper w = Some loaded \<and> wrapper_get L loaded a ow nm = None)"
      and miss: "store_query a ow nm (db w) = None"
  shows "db (snd (get_uncached L a ow nm wrap w)) = db (snd (update_cache L w))"
proof -
  from locate_miss_refresh [OF wr miss] obtain wq where
    u: "fst (update_cache L wq) = fst (update_cache L w)"
    and d: "db wq = db w" and r: "remote wq = remote w"
    and l: "locate L a ow nm w =
               (case update_cache L wq of
                  (Inl e, w3) \<Rightarrow> (Inl e, emit RetryRelease w3)
                | (Inr did, w3) \<Rightarrow>
                    (Inr (store_query a ow nm (db w3)), emit RetryRelease (emit Query w3)))"
    by blast
  have "db (snd (locate L a ow nm w)) = db (snd (update_cache L wq))"
    by (cases "update_cache L wq") (simp add: l split: sum.splits)
  also have "\<dots> = db (snd (update_cache L w))"
    by (simp only: update_cache_db u d r)
  finally show ?thesis by (simp add: get_uncached_world)
qed

text \<open>
  Claim C3, as the code has it. \<^verbatim>\<open>_get\<close> tests only \<^verbatim>\<open>alias.count("/") == 1\<close>. An alias
  made of two parts without a slash around one slash is looked up by that owner and name,
  whatever owner and name were passed and whether or not a part is empty; an alias with
  no slash or with more than one, when it is not empty, is looked up as an alias; and for
  the empty alias the lookup is by the owner and name passed.
\<close>

theorem underscore_get_alias:
  "(CHR ''/'' \<notin> set ow \<and> CHR ''/'' \<notin> set nm \<longrightarrow>
      underscore_get (Some (ow @ ''/'' @ nm)) given_owner given_name w =
        (Inr (select_by_owner_name (Some ow) (Some nm) (db w)), emit Query w))
   \<and> (count_slash a \<noteq> 1 \<and> a \<noteq> [] \<longrightarrow>
      underscore_get (Some a) given_owner given_name w =
        (Inr (select_by_alias a (db w)), emit Query w))
   \<and> underscore_get (Some []) given_owner given_name w =
        (Inr (select_by_owner_name given_owner given_name (db w)), emit Query w)"
proof (intro conjI impI)
  assume s: "CHR ''/'' \<notin> set ow \<and> CHR ''/'' \<notin> set nm"
  then have "count_slash ow = 0" and "count_slash nm = 0"
    by (simp_all add: count_slash_none)
  then have c: "count_slash (ow @ ''/'' @ nm) = 1"
    by (simp add: count_slash_def)
  from s have p: "split_slash (ow @ ''/'' @ nm) = [ow, nm]"
    by (intro split_slash_one) simp_all
  show "underscore_get (Some (ow @ ''/'' @ nm)) given_owner given_name w =
        (Inr (select_by_owner_name (Some ow) (Some nm) (db w)), emit Query w)"
    unfolding underscore_get_def using c p by (simp add: truthy_def)
next
  assume "count_slash a \<noteq> 1 \<and> a \<noteq> []"
  then show "underscore_get (Some a) given_owner given_name w =
        (Inr (select_by_alias a (db w)), emit Query w)"
    by (simp add: underscore_get_def truthy_def)
next
  show "underscore_get (Some []) given_owner given_name w =
        (Inr (select_by_owner_name given_owner given_name (db w)), emit Query w)"
    by (simp add: underscore_get_def truthy_def count_slash_def)
qed

theorem underscore_get_alias_witness:
  "CHR ''/'' \<notin> set ''acme'' \<and> CHR ''/'' \<notin> set ''widget''
   \<and> underscore_get (Some ''acme/widget'') None None example_stored =
       (Inr (Some (create example_lib example_payload)), emit Query example_stored)
   \<and> count_slash ''w'' \<noteq> 1 \<and> ''w'' \<noteq> []
   \<and> underscore_get (Some ''w'') None None example_stored =
       (Inr (Some (create example_lib example_payload)), emit Query example_stored)
   \<and> CHR ''/'' \<notin> set ''acme'' \<and> CHR ''/'' \<notin> set ''''
   \<and> underscore_get (Some ''acme/'') None None example_slashed =
       (Inr None, emit Query example_slashed)"
proof -
  have a: "CHR ''/'' \<notin> set ''acme'' \<and> CHR ''/'' \<notin> set ''widget''" by simp
  have b: "count_slash ''w'' \<noteq> 1 \<and> ''w'' \<noteq> []" by (simp add: count_slash_def)
  have c: "CHR ''/'' \<notin> set ''acme'' \<and> CHR ''/'' \<notin> set ''''" by simp
  from underscore_get_alias [where ow = "''acme''" and nm = "''widget''" and given_owner = None
      and given_name = None and w = example_stored] a
  have 1: "underscore_get (Some ''acme/widget'') None None example_stored =
       (Inr (select_by_owner_name (Some ''acme'') (Some ''widget'') (db example_stored)),
        emit Query example_stored)"
    by simp
  from underscore_get_alias [where a = "''w''" and given_owner = None and given_name = None
      and w = example_stored] b
  have 2: "underscore_get (Some ''w'') None None example_stored =
       (Inr (select_by_alias ''w'' (db example_stored)), emit Query example_stored)"
    by blast
  from underscore_get_alias [where ow = "''acme''" and nm = "[]" and given_owner = None
      and given_name = None and w = example_slashed] c
  have 3: "underscore_get (Some ''acme/'') None None example_slashed =
       (Inr (select_by_owner_name (Some ''acme'') (Some '''') (db example_slashed)),
        emit Query example_slashed)"
    by simp
  have s1: "select_by_owner_name (Some ''acme'') (Some ''widget'') (db example_stored)
              = Some (create example_lib example_payload)"
    by (simp add: example_stored_def select_by_owner_name_def) (simp add: example_payload_def)
  have s2: "select_by_alias ''w'' (db example_stored) = Some (create example_lib example_payload)"
    by (simp add: example_stored_def select_by_alias_def) (simp add: example_payload_def)
  have s3: "select_by_owner_name (Some ''acme'') (Some '''') (db example_slashed) = None"
    by (simp add: example_slashed_def select_by_owner_name_def) (simp add: example_payload_def)
  from a b c 1 2 3 s1 s2 s3 show ?thesis by simp
qed

text \<open>
  The claim as first stated sends an alias whose parts are not both non-empty to the alias
  lookup. For \<^verbatim>\<open>"acme/"\<close> the code splits all the same: a row with exactly that alias is
  in the table, the alias lookup would find it, and \<^verbatim>\<open>_get\<close> returns \<^verbatim>\<open>None\<close>.
\<close>

theorem underscore_get_alias_counterexample:
  "count_slash ''acme/'' = 1
   \<and> split_slash ''acme/'' = [''acme'', '''']
   \<and> select_by_alias ''acme/'' (db example_slashed) \<noteq> None
   \<and> fst (underscore_get (Some ''acme/'') None None example_slashed) = Inr None"
proof -
  have 1: "count_slash ''acme/'' = 1" by (simp add: count_slash_def)
  have 2: "split_slash ''acme/'' = [''acme'', '''']"
    using split_slash_one [of "''acme''" "''''"] by simp
  have 3: "select_by_alias ''acme/'' (db example_slashed) \<noteq> None"
    by (simp add: example_slashed_def select_by_alias_def)
  have 4: "store_query (Some ''acme/'') None None (db example_slashed) = None"
    by (simp add: store_query_def 1 example_slashed_def select_by_owner_name_def)
       (simp add: example_payload_def)
  from 1 2 3 4 show ?thesis by (simp add: underscore_get_query)
qed

text \<open>
  Claim C6. Take a call of \<^verbatim>\<open>get\<close> that the cache does not answer, in which the wrapper,
  if there is one, finds nothing and the first query of the table finds nothing. Then its
  trace is: the first query, the retry lock, the second query, one call of
  \<^verbatim>\<open>update_cache\<close> (one acquisition of \<^verbatim>\<open>update_lock\<close>, at most one fetch), and the release
  of the retry lock at the end. When the gate admits the refresh and \<^verbatim>\<open>GraphQL.get_all\<close>
  raises, or the transaction fails, \<^verbatim>\<open>get\<close> raises that same exception after two
  queries. When the refresh does not raise (it ran, or the gate declined it), there is a
  third query, and \<^verbatim>\<open>get\<close> returns \<^verbatim>\<open>None\<close> exactly when the table still has no such row.
\<close>

theorem get_miss_refreshes_once:
  fixes L a ow nm wrap w
  defines "r \<equiv> get L a ow nm wrap w"
  assumes uncached: "cache_lookup (a, ow, nm, wrap) w = None"
      and wr: "service_wrapper w = None \<or>
           (\<exists>loaded. service_wrapper w = Some loaded \<and> wrapper_get L loaded a ow nm = None)"
      and miss: "fst (underscore_get a ow nm w) = Inr None"
  shows "occurrences LockAcquire (trace (snd r)) = occurrences LockAcquire (trace w) + 1
       \<and> occurrences Fetch (trace (snd r)) \<le> occurrences Fetch (trace w) + 1
       \<and> (\<exists>rest. trace (snd r) =
             trace w @ (if service_wrapper w = None then [] else [WrapperGet])
               @ [Query, RetryAcquire, Query, LockAcquire] @ rest @ [RetryRelease])
       \<and> (\<forall>e. fst (go_nogo_execute_update w) \<and> remote w = Inl e \<longrightarrow>
            fst r = Inl e \<and> occurrences Query (trace (snd r)) = occurrences Query (trace w) + 2)
       \<and> (fst (go_nogo_execute_update w) \<and> (\<exists>ps. remote w = Inr ps) \<and> store_fault w \<longrightarrow>
            fst r = Inl StoreFailure
          \<and> occurrences Query (trace (snd r)) = occurrences Query (trace w) + 2)
       \<and> (\<not> fst (go_nogo_execute_update w) \<or> ((\<exists>ps. remote w = Inr ps) \<and> \<not> store_fault w) \<longrightarrow>
            occurrences Query (trace (snd r)) = occurrences Query (trace w) + 3
          \<and> (fst (underscore_get a ow nm (snd r)) = Inr None \<longrightarrow> fst r = Inr None)
          \<and> (fst r = Inr None \<longrightarrow> fst (underscore_get a ow nm (snd r)) = Inr None))"
proof -
  let ?u = "get_uncached L a ow nm wrap w"
  from get_past_cache [OF uncached, of L] have
    f: "fst r = fst ?u" and t: "trace (snd r) = trace (snd ?u)" and d: "db (snd r) = db (snd ?u)"
    by (simp_all add: r_def)
  have q: "fst (underscore_get a ow nm (snd r)) = fst (underscore_get a ow nm (snd ?u))"
    by (simp add: underscore_get_query d)
  show ?thesis
    unfolding f t q by (rule get_uncached_miss_refresh [OF wr miss])
qed

theorem get_miss_refreshes_once_witness:
  "service_wrapper example_world = None
   \<and> fst (underscore_get (Some ''nonexistent'') None None example_world) = Inr None
   \<and> fst (go_nogo_execute_update example_world)
   \<and> fst (get example_lib (Some ''nonexistent'') None None False example_world)
       = Inr None
   \<and> occurrences Fetch (trace (snd
        (get example_lib (Some ''nonexistent'') None None False example_world))) \<le> 1
   \<and> occurrences Query (trace (snd
        (get example_lib (Some ''nonexistent'') None None False example_world))) = 3
   \<and> remote (example_world\<lparr>remote := Inl TransportFailure\<rparr>) = Inl TransportFailure
   \<and> fst (get example_lib (Some ''nonexistent'') None None False
        (example_world\<lparr>remote := Inl TransportFailure\<rparr>)) = Inl TransportFailure
   \<and> fst (get example_lib (Some ''nonexistent'') None None False
        (example_world\<lparr>store_fault := True\<rparr>)) = Inl StoreFailure"
proof -
  let ?t = "example_world\<lparr>remote := Inl TransportFailure\<rparr>"
  let ?s = "example_world\<lparr>store_fault := True\<rparr>"
  let ?r = "get example_lib (Some ''nonexistent'') None None False example_world"
  have cm: "cache_lookup k example_world = None" "cache_lookup k ?t = None"
    "cache_lookup k ?s = None" for k
    by (simp_all add: cache_lookup_def example_world_def)
  have q: "store_query (Some ''nonexistent'') None None [] = None"
    by (simp add: store_query_def count_slash_def select_by_alias_def)
  have wr: "service_wrapper example_world = None \<or>
      (\<exists>loaded. service_wrapper example_world = Some loaded \<and>
         wrapper_get example_lib loaded (Some ''nonexistent'') None None = None)"
    and wrt: "service_wrapper ?t = None \<or>
      (\<exists>loaded. service_wrapper ?t = Some loaded \<and>
         wrapper_get example_lib loaded (Some ''nonexistent'') None None = None)"
    and wrs: "service_wrapper ?s = None \<or>
      (\<exists>loaded. service_wrapper ?s = Some loaded \<and>
         wrapper_get example_lib loaded (Some ''nonexistent'') None None = None)"
    by (simp_all add: example_world_def)
  have m: "fst (underscore_get (Some ''nonexistent'') None None example_world) = Inr None"
    and mt: "fst (underscore_get (Some ''nonexistent'') None None ?t) = Inr None"
    and ms: "fst (underscore_get (Some ''nonexistent'') None None ?s) = Inr None"
    by (simp_all add: underscore_get_query) (simp_all add: example_world_def q)
  have g: "fst (go_nogo_execute_update example_world)"
    and gt: "fst (go_nogo_execute_update ?t)"
    and gs: "fst (go_nogo_execute_update ?s)"
    by (simp_all add: go_fst check_last_update_run_def) (simp_all add: example_world_def)
  have ok: "(\<exists>ps. remote example_world = Inr ps) \<and> \<not> store_fault example_world"
    and ks: "(\<exists>ps. remote ?s = Inr ps) \<and> store_fault ?s"
    by (simp_all add: example_world_def)
  have "db (snd ?r) = db (snd (update_cache example_lib example_world))"
    using get_past_cache [OF cm(1), of example_lib]
      get_miss_table [OF wr, where wrap = False]
    by (simp add: example_world_def q)
  then have d: "db (snd ?r) = [create example_lib example_payload]"
    by (simp add: example_refreshed)
  have after: "fst (underscore_get (Some ''nonexistent'') None None (snd ?r)) = Inr None"
    by (simp add: underscore_get_query d store_query_def count_slash_def select_by_alias_def)
       (simp add: example_payload_def)
  have t0: "occurrences Fetch (trace example_world) = 0"
    "occurrences Query (trace example_world) = 0"
    by (simp_all add: example_world_def)
  from get_miss_refreshes_once [OF cm(1) wr m, where wrap = False] ok after t0
  have 1: "fst ?r = Inr None \<and> occurrences Fetch (trace (snd ?r)) \<le> 1
     \<and> occurrences Query (trace (snd ?r)) = 3"
    by simp
  from get_miss_refreshes_once [OF cm(2) wrt mt, where wrap = False] gt
  have 2: "fst (get example_lib (Some ''nonexistent'') None None False ?t)
             = Inl TransportFailure"
    by simp
  from get_miss_refreshes_once [OF cm(3) wrs ms, where wrap = False] gs ks
  have 3: "fst (get example_lib (Some ''nonexistent'') None None False ?s)
             = Inl StoreFailure"
    by blast
  from wr m g 1 2 3 show ?thesis by (simp add: example_world_def)
qed

lemma example_payload_fields:
  "p_serviceUuid example_payload = ''A86742FD''"
  "p_name example_payload = ''widget''"
  "p_alias example_payload = Some ''w''"
  "p_username example_payload = ''acme''"
  "p_description example_payload = ''d''"
  "p_isCertified example_payload = False"
  "p_public example_payload = True"
  "p_topics example_payload = JList [JStr ''a'', JStr ''b'']"
  "p_state example_payload = ''BETA''"
  "p_configuration example_payload = JDict [(''x'', JInt 1)]"
  "p_readme example_payload = ''r''"
  by (simp_all add: example_payload_def)

lemma with_structured_create:
  "with_structured (create L p) t c =
     \<lparr>service_uuid = p_serviceUuid p, name = p_name p, alias = p_alias p,
      username = p_username p, description = p_description p,
      certified = p_isCertified p, is_public = p_public p,
      topics = t, state = p_state p,
      configuration = c, readme = p_readme p,
      raw_data = json_dumps L (payload_dict p)\<rparr>"
  by (simp add: with_structured_def)

text \<open>
  Claim C7. After an \<^verbatim>\<open>update_cache\<close> that returned \<^verbatim>\<open>True\<close>, on a hub without a wrapper,
  let \<open>p\<close> be a fetched service whose topics and configuration \<^verbatim>\<open>json.loads\<close> reads back
  from the text \<^verbatim>\<open>json.dumps\<close> wrote. Then a \<^verbatim>\<open>get\<close> with \<^verbatim>\<open>wrap_service=False\<close>, at any later
  time, whose query finds the row made of \<open>p\<close> returns a \<^verbatim>\<open>Service\<close> whose \<^verbatim>\<open>topics\<close> and
  \<^verbatim>\<open>configuration\<close> are the topics and the configuration of \<open>p\<close> themselves, not their
  texts, and whose other attributes are those the row was created with; and when \<open>p\<close> is the only fetched
  service with its owner and name, \<^verbatim>\<open>get(owner=..., name=...)\<close> is such a call.
\<close>

theorem refresh_get_roundtrip:
  assumes refresh: "update_cache L w = (Inr True, w1)"
      and fetched: "remote w = Inr ps"
      and plain: "service_wrapper w = None"
      and topics_back: "json_loads L (json_dumps L (p_topics p)) = Some (p_topics p)"
      and configuration_back:
            "json_loads L (json_dumps L (p_configuration p)) = Some (p_configuration p)"
  shows "(fst (underscore_get a ow nm w1) = Inr (Some (create L p)) \<longrightarrow>
            fst (get L a ow nm False (w1\<lparr>clock := now\<rparr>)) =
              Inr (Some (Plain
                \<lparr>service_uuid = p_serviceUuid p, name = p_name p, alias = p_alias p,
                 username = p_username p, description = p_description p,
                 certified = p_isCertified p, is_public = p_public p,
                 topics = Some (p_topics p), state = p_state p,
                 configuration = Some (p_configuration p), readme = p_readme p,
                 raw_data = json_dumps L (payload_dict p)\<rparr>)))
       \<and> (p \<in> set ps
            \<and> (\<forall>q\<in>set ps. p_username q = p_username p \<and> p_name q = p_name p \<longrightarrow> q = p) \<longrightarrow>
            fst (get L None (Some (p_username p)) (Some (p_name p)) False (w1\<lparr>clock := now\<rparr>)) =
              Inr (Some (Plain
                \<lparr>service_uuid = p_serviceUuid p, name = p_name p, alias = p_alias p,
                 username = p_username p, description = p_description p,
                 certified = p_isCertified p, is_public = p_public p,
                 topics = Some (p_topics p), state = p_state p,
                 configuration = Some (p_configuration p), readme = p_readme p,
                 raw_data = json_dumps L (payload_dict p)\<rparr>)))"
proof -
  from update_cache_succeeded [OF refresh] have
    adm: "fst (go_nogo_execute_update w)" and nf: "\<not> store_fault w"
    by blast+
  have w1: "w1 = mark_status_updated (clear_caches (emit Commit
        ((reload_services ps (emit Fetch (snd (go_nogo_execute_update w))))
           \<lparr>db := map (create L) ps\<rparr>)))"
    using refresh by (simp add: update_cache_succeeds [OF adm fetched nf])
  let ?v = "w1\<lparr>clock := now\<rparr>"
  have dbv: "db ?v = map (create L) ps" by (simp add: w1)
  have db1: "db w1 = map (create L) ps" by (simp add: w1)
  have swv: "service_wrapper ?v = None"
    using plain by (simp add: w1 reload_services_def)
  have cv: "cache_lookup k ?v = None" for k
    by (rule cache_lookup_empty) (simp add: w1)
  have main: "fst (get L a' ow' nm' False ?v) =
              Inr (Some (Plain
                \<lparr>service_uuid = p_serviceUuid p, name = p_name p, alias = p_alias p,
                 username = p_username p, description = p_description p,
                 certified = p_isCertified p, is_public = p_public p,
                 topics = Some (p_topics p), state = p_state p,
                 configuration = Some (p_configuration p), readme = p_readme p,
                 raw_data = json_dumps L (payload_dict p)\<rparr>))"
    if q: "store_query a' ow' nm' (map (create L) ps) = Some (create L p)" for a' ow' nm'
  proof -
    have lo: "locate L a' ow' nm' ?v = (Inr (Some (create L p)), emit Query ?v)"
      by (rule locate_found_in_table [OF swv]) (simp only: dbv q)
    have pr: "present L False (emit Query ?v) (create L p) =
        Inr (Plain (with_structured (create L p) (Some (p_topics p)) (Some (p_configuration p))))"
      using swv by (simp add: present_def loads_column_def topics_back configuration_back)
    show ?thesis
      by (simp add: get_def cv get_uncached_def lo pr with_structured_create)
  qed
  show ?thesis
  proof (intro conjI impI)
    assume "fst (underscore_get a ow nm w1) = Inr (Some (create L p))"
    then have "store_query a ow nm (map (create L) ps) = Some (create L p)"
      by (simp add: underscore_get_query db1)
    then show "fst (get L a ow nm False ?v) =
              Inr (Some (Plain
                \<lparr>service_uuid = p_serviceUuid p, name = p_name p, alias = p_alias p,
                 username = p_username p, description = p_description p,
                 certified = p_isCertified p, is_public = p_public p,
                 topics = Some (p_topics p), state = p_state p,
                 configuration = Some (p_configuration p), readme = p_readme p,
                 raw_data = json_dumps L (payload_dict p)\<rparr>))"
      by (rule main)
  next
    assume "p \<in> set ps
            \<and> (\<forall>q\<in>set ps. p_username q = p_username p \<and> p_name q = p_name p \<longrightarrow> q = p)"
    then have "select_by_owner_name (Some (p_username p)) (Some (p_name p)) (map (create L) ps)
           = Some (create L p)"
      by (intro find_created) blast+
    then have "store_query None (Some (p_username p)) (Some (p_name p)) (map (create L) ps)
           = Some (create L p)"
      by (simp add: store_query_def)
    then show "fst (get L None (Some (p_username p)) (Some (p_name p)) False ?v) =
              Inr (Some (Plain
                \<lparr>service_uuid = p_serviceUuid p, name = p_name p, alias = p_alias p,
                 username = p_username p, description = p_description p,
                 certified = p_isCertified p, is_public = p_public p,
                 topics = Some (p_topics p), state = p_state p,
                 configuration = Some (p_configuration p), readme = p_readme p,
                 raw_data = json_dumps L (payload_dict p)\<rparr>))"
      by (rule main)
  qed
qed

theorem refresh_get_roundtrip_witness:
  "update_cache example_lib example_world
     = (Inr True, snd (update_cache example_lib example_world))
   \<and> remote example_world = Inr [example_payload]
   \<and> service_wrapper example_world = None
   \<and> json_loads example_lib (json_dumps example_lib (JList [JStr ''a'', JStr ''b'']))
       = Some (JList [JStr ''a'', JStr ''b''])
   \<and> json_loads example_lib (json_dumps example_lib (JDict [(''x'', JInt 1)]))
       = Some (JDict [(''x'', JInt 1)])
   \<and> fst (underscore_get (Some ''w'') None None (snd (update_cache example_lib example_world)))
       = Inr (Some (create example_lib example_payload))
   \<and> fst (get example_lib (Some ''w'') None None False
        ((snd (update_cache example_lib example_world))\<lparr>clock := 101\<rparr>)) =
       Inr (Some (Plain
              \<lparr>service_uuid = ''A86742FD'', name = ''widget'', alias = Some ''w'',
                username = ''acme'', description = ''d'', certified = False, is_public = True,
                topics = Some (JList [JStr ''a'', JStr ''b'']), state = ''BETA'',
                configuration = Some (JDict [(''x'', JInt 1)]), readme = ''r'',
                raw_data = json_dumps example_lib (payload_dict example_payload)\<rparr>))
   \<and> example_payload \<in> set [example_payload]
   \<and> fst (get example_lib None (Some ''acme'') (Some ''widget'') False
        ((snd (update_cache example_lib example_world))\<lparr>clock := 101\<rparr>)) =
       Inr (Some (Plain
              \<lparr>service_uuid = ''A86742FD'', name = ''widget'', alias = Some ''w'',
                username = ''acme'', description = ''d'', certified = False, is_public = True,
                topics = Some (JList [JStr ''a'', JStr ''b'']), state = ''BETA'',
                configuration = Some (JDict [(''x'', JInt 1)]), readme = ''r'',
                raw_data = json_dumps example_lib (payload_dict example_payload)\<rparr>))"
proof -
  let ?w1 = "snd (update_cache example_lib example_world)"
  have first: "update_cache example_lib example_world = (Inr True, ?w1)"
    by (simp add: example_refreshed)
  have fetched: "remote example_world = Inr [example_payload]"
    and plain: "service_wrapper example_world = None"
    by (simp_all add: example_world_def)
  have tp: "p_topics example_payload = JList [JStr ''a'', JStr ''b'']"
    and cf: "p_configuration example_payload = JDict [(''x'', JInt 1)]"
    and un: "p_username example_payload = ''acme''" and nm: "p_name example_payload = ''widget''"
    by (simp_all add: example_payload_def)
  have d: "db ?w1 = [create example_lib example_payload]"
    by (simp add: example_refreshed)
  have q: "fst (underscore_get (Some ''w'') None None ?w1)
             = Inr (Some (create example_lib example_payload))"
    by (simp add: underscore_get_query d store_query_def count_slash_def select_by_alias_def)
       (simp add: example_payload_def)
  have u: "example_payload \<in> set [example_payload]
     \<and> (\<forall>q\<in>set [example_payload].
           p_username q = p_username example_payload \<and> p_name q = p_name example_payload
             \<longrightarrow> q = example_payload)"
    by simp
  note inst = refresh_get_roundtrip [OF first fetched plain example_loads(1) example_loads(2),
      where now = 101]
  from inst [where a = "Some ''w''" and ow = None and nm = None] q
  have 1: "fst (get example_lib (Some ''w'') None None False (?w1\<lparr>clock := 101\<rparr>)) =
       Inr (Some (Plain
                \<lparr>service_uuid = p_serviceUuid example_payload, name = p_name example_payload, alias = p_alias example_payload,
                 username = p_username example_payload, description = p_description example_payload,
                 certified = p_isCertified example_payload, is_public = p_public example_payload,
                 topics = Some (p_topics example_payload), state = p_state example_payload,
                 configuration = Some (p_configuration example_payload), readme = p_readme example_payload,
                 raw_data = json_dumps example_lib (payload_dict example_payload)\<rparr>))"
    by blast
  from inst u
  have 2: "fst (get example_lib None (Some (p_username example_payload))
              (Some (p_name example_payload)) False (?w1\<lparr>clock := 101\<rparr>)) =
       Inr (Some (Plain
                \<lparr>service_uuid = p_serviceUuid example_payload, name = p_name example_payload, alias = p_alias example_payload,
                 username = p_username example_payload, description = p_description example_payload,
                 certified = p_isCertified example_payload, is_public = p_public example_payload,
                 topics = Some (p_topics example_payload), state = p_state example_payload,
                 configuration = Some (p_configuration example_payload), readme = p_readme example_payload,
                 raw_data = json_dumps example_lib (payload_dict example_payload)\<rparr>))"
    by blast
  from first fetched plain example_loads(1,2) q 1 2 show ?thesis
    by (simp add: example_payload_fields)
qed

text \<open>
  Claim C8. After an \<^verbatim>\<open>update_cache\<close> that returned \<^verbatim>\<open>True\<close> with the fetched services
  \<open>ps\<close>, \<^verbatim>\<open>get_all_service_names\<close> returns, as a multiset, one \<^verbatim>\<open>owner/name\<close> string for
  every service of \<open>ps\<close> and one alias for every service of \<open>ps\<close> whose alias is neither
  \<^verbatim>\<open>None\<close> nor empty. The right-hand side depends on \<open>ps\<close> only as a multiset, so the
  order in which the services were inserted does not matter.
\<close>

theorem names_after_refresh:
  assumes "update_cache L w = (Inr True, w1)" and "remote w = Inr ps"
  shows "mset (fst (get_all_service_names (w1\<lparr>clock := now\<rparr>))) =
           image_mset (\<lambda>p. p_username p @ ''/'' @ p_name p) (mset ps)
             + image_mset (\<lambda>p. the (p_alias p))
                 (filter_mset (\<lambda>p. truthy (p_alias p)) (mset ps))"
proof -
  from update_cache_succeeded [OF assms(1)] have
    adm: "fst (go_nogo_execute_update w)" and nf: "\<not> store_fault w"
    by blast+
  have w1: "w1 = mark_status_updated (clear_caches (emit Commit
        ((reload_services ps (emit Fetch (snd (go_nogo_execute_update w))))
           \<lparr>db := map (create L) ps\<rparr>)))"
    using assms(1) by (simp add: update_cache_succeeds [OF adm assms(2) nf])
  have "fst (get_all_service_names (w1\<lparr>clock := now\<rparr>)) =
          collect_names [] (map (create L) ps)"
    by (simp add: get_all_service_names_def w1 Let_def)
  then show ?thesis by (simp only: collect_names_mset)
qed

theorem names_after_refresh_witness:
  "update_cache example_lib example_world
     = (Inr True, snd (update_cache example_lib example_world))
   \<and> remote example_world = Inr [example_payload]
   \<and> mset (fst (get_all_service_names
        ((snd (update_cache example_lib example_world))\<lparr>clock := 101\<rparr>)))
       = {#''w'', ''acme/widget''#}"
proof -
  let ?w1 = "snd (update_cache example_lib example_world)"
  have first: "update_cache example_lib example_world = (Inr True, ?w1)"
    by (simp add: example_refreshed)
  have fetched: "remote example_world = Inr [example_payload]"
    by (simp add: example_world_def)
  from names_after_refresh [OF first fetched, of 101]
  have "mset (fst (get_all_service_names (?w1\<lparr>clock := 101\<rparr>))) = {#''w'', ''acme/widget''#}"
    by (simp add: example_payload_def truthy_def)
  with first fetched show ?thesis by blast
qed

text \<open>
  Claim C9. Take a call of \<^verbatim>\<open>get\<close> that the cache does not answer and whose first half
  (wrapper, table, retry block) has found an object \<open>s\<close>. With
  \<^verbatim>\<open>wrap_service\<close> set, or with a wrapper configured (also when \<open>s\<close> came from the
  table), the result is \<^verbatim>\<open>ServiceData.from_dict(data={"service_data": d})\<close> for the value
  \<open>d\<close> that \<^verbatim>\<open>json.loads\<close> reads from \<^verbatim>\<open>s.raw_data\<close>; otherwise it is \<open>s\<close> itself with
  \<^verbatim>\<open>topics\<close> and \<^verbatim>\<open>configuration\<close> replaced by what \<^verbatim>\<open>json.loads\<close> reads from them (a
  column that is \<^verbatim>\<open>None\<close> stays \<^verbatim>\<open>None\<close>). A text that \<^verbatim>\<open>json.loads\<close> rejects makes \<^verbatim>\<open>get\<close>
  raise instead.
\<close>

theorem get_found_result:
  assumes uncached: "cache_lookup (a, ow, nm, wrap) w = None"
      and found: "locate L a ow nm w = (Inr (Some s), w')"
  shows "(wrap \<or> service_wrapper w \<noteq> None \<longrightarrow>
            fst (get L a ow nm wrap w) =
              (case json_loads L (raw_data s) of
                 None \<Rightarrow> Inl JSONDecodeError
               | Some d \<Rightarrow> Inr (Some (Wrapped (JDict [(''service_data'', d)])))))
       \<and> (\<not> wrap \<and> service_wrapper w = None
            \<and> (\<forall>x. topics s = Some x \<longrightarrow> json_loads L x \<noteq> None)
            \<and> (\<forall>x. configuration s = Some x \<longrightarrow> json_loads L x \<noteq> None) \<longrightarrow>
            fst (get L a ow nm wrap w) =
              Inr (Some (Plain
                \<lparr>service_uuid = service_uuid s, name = name s, alias = alias s,
                 username = username s, description = description s,
                 certified = certified s, is_public = is_public s,
                 topics = Option.bind (topics s) (json_loads L), state = state s,
                 configuration = Option.bind (configuration s) (json_loads L), readme = readme s,
                 raw_data = raw_data s\<rparr>)))"
proof -
  have f: "fst (get L a ow nm wrap w) = fst (get_uncached L a ow nm wrap w)"
    using get_past_cache [OF uncached] by blast
  show ?thesis
  proof (intro conjI impI)
    assume "wrap \<or> service_wrapper w \<noteq> None"
    with get_uncached_found [OF found, of wrap]
    have "get_uncached L a ow nm wrap w =
              (case json_loads L (raw_data s) of
                 None \<Rightarrow> (Inl JSONDecodeError, w')
               | Some d \<Rightarrow> (Inr (Some (Wrapped (JDict [(''service_data'', d)]))), w'))"
      by blast
    then show "fst (get L a ow nm wrap w) =
              (case json_loads L (raw_data s) of
                 None \<Rightarrow> Inl JSONDecodeError
               | Some d \<Rightarrow> Inr (Some (Wrapped (JDict [(''service_data'', d)]))))"
      by (simp add: f split: option.splits)
  next
    assume "\<not> wrap \<and> service_wrapper w = None
            \<and> (\<forall>x. topics s = Some x \<longrightarrow> json_loads L x \<noteq> None)
            \<and> (\<forall>x. configuration s = Some x \<longrightarrow> json_loads L x \<noteq> None)"
    with get_uncached_found [OF found, of wrap]
    have "get_uncached L a ow nm wrap w =
              (Inr (Some (Plain
                \<lparr>service_uuid = service_uuid s, name = name s, alias = alias s,
                 username = username s, description = description s,
                 certified = certified s, is_public = is_public s,
                 topics = Option.bind (topics s) (json_loads L), state = state s,
                 configuration = Option.bind (configuration s) (json_loads L), readme = readme s,
                 raw_data = raw_data s\<rparr>)), w')"
      by (simp add: with_structured_def)
    then show "fst (get L a ow nm wrap w) =
              Inr (Some (Plain
                \<lparr>service_uuid = service_uuid s, name = name s, alias = alias s,
                 username = username s, description = description s,
                 certified = certified s, is_public = is_public s,
                 topics = Option.bind (topics s) (json_loads L), state = state s,
                 configuration = Option.bind (configuration s) (json_loads L), readme = readme s,
                 raw_data = raw_data s\<rparr>))"
      by (simp add: f)
  qed
qed

theorem get_found_result_witness:
  "cache_lookup (Some ''w'', None, None, True) example_stored = None
   \<and> locate example_lib (Some ''w'') None None example_stored
     = (Inr (Some (create example_lib example_payload)), emit Query example_stored)
   \<and> fst (get example_lib (Some ''w'') None None True example_stored)
     = Inr (Some (Wrapped (JDict [(''service_data'', payload_dict example_payload)])))
   \<and> service_wrapper example_stored = None
   \<and> fst (get example_lib (Some ''w'') None None False example_stored)
     = Inr (Some (Plain
              \<lparr>service_uuid = ''A86742FD'', name = ''widget'', alias = Some ''w'',
                username = ''acme'', description = ''d'', certified = False, is_public = True,
                topics = Some (JList [JStr ''a'', JStr ''b'']), state = ''BETA'',
                configuration = Some (JDict [(''x'', JInt 1)]), readme = ''r'',
                raw_data = json_dumps example_lib (payload_dict example_payload)\<rparr>))
   \<and> service_wrapper (example_stored\<lparr>service_wrapper := Some []\<rparr>) \<noteq> None
   \<and> fst (get example_lib (Some ''w'') None None False
        (example_stored\<lparr>service_wrapper := Some []\<rparr>))
     = Inr (Some (Wrapped (JDict [(''service_data'', payload_dict example_payload)])))"
proof -
  let ?row = "create example_lib example_payload"
  let ?v = "example_stored\<lparr>service_wrapper := Some []\<rparr>"
  have cm: "cache_lookup k example_stored = None" "cache_lookup k ?v = None" for k
    by (simp_all add: cache_lookup_def example_stored_def example_world_def)
  have q: "store_query (Some ''w'') None None [?row] = Some ?row"
    by (simp add: store_query_def count_slash_def select_by_alias_def)
       (simp add: example_payload_def)
  have n: "service_wrapper example_stored = None"
    by (simp add: example_stored_def example_world_def)
  have l: "locate example_lib (Some ''w'') None None example_stored
     = (Inr (Some ?row), emit Query example_stored)"
    by (rule locate_found_in_table [OF n]) (simp add: example_stored_def q)
  have lv: "locate example_lib (Some ''w'') None None ?v
     = (Inr (Some ?row), emit Query (emit WrapperGet ?v))"
  proof -
    have wg: "wrapper_get example_lib [] (Some ''w'') None None = None"
      by (simp add: example_lib_def)
    have dv: "db ?v = [?row]" by (simp add: example_stored_def)
    show ?thesis
      by (simp add: locate_def underscore_get_query Let_def wg dv q)
  qed
  have raw: "json_loads example_lib (raw_data ?row) = Some (payload_dict example_payload)"
    by (simp add: example_loads(3))
  have tc: "(\<forall>x. topics ?row = Some x \<longrightarrow> json_loads example_lib x \<noteq> None)
          \<and> (\<forall>x. configuration ?row = Some x \<longrightarrow> json_loads example_lib x \<noteq> None)"
    by (simp add: example_loads(1,2))
  have b: "Option.bind (topics ?row) (json_loads example_lib) = Some (JList [JStr ''a'', JStr ''b''])"
    "Option.bind (configuration ?row) (json_loads example_lib) = Some (JDict [(''x'', JInt 1)])"
    by (simp_all add: example_loads(1,2)) (simp_all add: example_payload_def)
  from get_found_result [where wrap = True, OF cm(1) l] raw
  have 1: "fst (get example_lib (Some ''w'') None None True example_stored)
     = Inr (Some (Wrapped (JDict [(''service_data'', payload_dict example_payload)])))"
    by simp
  from get_found_result [where wrap = False, OF cm(1) l] n tc b
  have 2: "fst (get example_lib (Some ''w'') None None False example_stored)
     = Inr (Some (Plain
              \<lparr>service_uuid = ''A86742FD'', name = ''widget'', alias = Some ''w'',
                username = ''acme'', description = ''d'', certified = False, is_public = True,
                topics = Some (JList [JStr ''a'', JStr ''b'']), state = ''BETA'',
                configuration = Some (JDict [(''x'', JInt 1)]), readme = ''r'',
                raw_data = json_dumps example_lib (payload_dict example_payload)\<rparr>))"
    by (simp add: example_payload_fields)
  from get_found_result [where wrap = False, OF cm(2) lv] raw
  have 3: "fst (get example_lib (Some ''w'') None None False ?v)
     = Inr (Some (Wrapped (JDict [(''service_data'', payload_dict example_payload)])))"
    by simp
  from cm(1) l n 1 2 3 show ?thesis by simp
qed

text \<open>
  Claim C10. With \<^verbatim>\<open>service_wrapper=True\<close> the constructor calls \<^verbatim>\<open>update_cache\<close> once
  before it returns, and the gate of the new controller admits it: exactly one fetch;
  an exception of the fetch or of the transaction leaves the constructor; otherwise the
  table holds the rows of the fetched services and the wrapper was given them. With
  \<^verbatim>\<open>service_wrapper=False\<close> the constructor fetches nothing and leaves the table alone;
  it only starts the update thread when \<^verbatim>\<open>auto_update\<close> is set.
\<close>

theorem init_refreshes_with_wrapper:
  "occurrences Fetch (trace (snd (init L auto_update True interval env)))
       = occurrences Fetch (trace env) + 1
   \<and> (\<forall>e. remote env = Inl e \<longrightarrow> fst (init L auto_update True interval env) = Inl e)
   \<and> (\<forall>ps. remote env = Inr ps \<and> store_fault env \<longrightarrow>
         fst (init L auto_update True interval env) = Inl StoreFailure
       \<and> db (snd (init L auto_update True interval env)) = db env)
   \<and> (\<forall>ps. remote env = Inr ps \<and> \<not> store_fault env \<longrightarrow>
         fst (init L auto_update True interval env) = Inr ()
       \<and> db (snd (init L auto_update True interval env)) = map (create L) ps
       \<and> service_wrapper (snd (init L auto_update True interval env)) = Some ps
       \<and> occurrences Commit (trace (snd (init L auto_update True interval env)))
           = occurrences Commit (trace env) + 1
       \<and> update_status (snd (init L auto_update True interval env)) = UPDATED)
   \<and> fst (init L auto_update False interval env) = Inr ()
   \<and> occurrences Fetch (trace (snd (init L auto_update False interval env)))
       = occurrences Fetch (trace env)
   \<and> occurrences Commit (trace (snd (init L auto_update False interval env)))
       = occurrences Commit (trace env)
   \<and> db (snd (init L auto_update False interval env)) = db env
   \<and> service_wrapper (snd (init L auto_update False interval env)) = None
   \<and> update_thread (snd (init L auto_update False interval env)) = auto_update"
proof -
  let ?w = "env\<lparr>last_update_run := None, update_interval := interval,
                  update_status := IDLE, service_wrapper := None, update_thread := False,
                  service_wrapper := Some []\<rparr>"
  have adm: "fst (go_nogo_execute_update ?w)"
    by (simp add: go_fst check_last_update_run_def)
  have f: "occurrences Fetch (trace (snd (update_cache L ?w))) = occurrences Fetch (trace env) + 1"
    using adm by (simp add: update_cache_fetch_occurrences)
  have 1: "occurrences Fetch (trace (snd (init L auto_update True interval env)))
       = occurrences Fetch (trace env) + 1"
    using f by (cases "update_cache L ?w") (auto simp: init_with_wrapper split: sum.splits)
  have 2: "fst (init L auto_update True interval env) = Inl e" if "remote env = Inl e" for e
    using that adm by (simp add: init_with_wrapper update_cache_fetch_fails)
  have 3: "fst (init L auto_update True interval env) = Inl StoreFailure
       \<and> db (snd (init L auto_update True interval env)) = db env"
    if "remote env = Inr ps \<and> store_fault env" for ps
    using that adm by (simp add: init_with_wrapper update_cache_store_fails [where ps = ps])
  have 4: "fst (init L auto_update True interval env) = Inr ()
       \<and> db (snd (init L auto_update True interval env)) = map (create L) ps
       \<and> service_wrapper (snd (init L auto_update True interval env)) = Some ps
       \<and> occurrences Commit (trace (snd (init L auto_update True interval env)))
           = occurrences Commit (trace env) + 1
       \<and> update_status (snd (init L auto_update True interval env)) = UPDATED"
    if "remote env = Inr ps \<and> \<not> store_fault env" for ps
    using that adm
    by (simp add: init_with_wrapper update_cache_succeeds [where ps = ps]
          reload_services_def go_occurrences)
  have 5: "fst (init L auto_update False interval env) = Inr ()
   \<and> occurrences Fetch (trace (snd (init L auto_update False interval env)))
       = occurrences Fetch (trace env)
   \<and> occurrences Commit (trace (snd (init L auto_update False interval env)))
       = occurrences Commit (trace env)
   \<and> db (snd (init L auto_update False interval env)) = db env
   \<and> service_wrapper (snd (init L auto_update False interval env)) = None
   \<and> update_thread (snd (init L auto_update False interval env)) = auto_update"
    by (simp add: init_without_wrapper Let_def)
  from 1 2 3 4 5 show ?thesis by blast
qed

theorem init_refreshes_with_wrapper_witness:
  "remote example_world = Inr [example_payload] \<and> \<not> store_fault example_world
   \<and> fst (init example_lib True True 60 example_world) = Inr ()
   \<and> db (snd (init example_lib True True 60 example_world))
       = [create example_lib example_payload]
   \<and> occurrences Fetch (trace (snd (init example_lib True True 60 example_world))) = 1
   \<and> occurrences Fetch (trace (snd (init example_lib True False 60 example_world))) = 0
   \<and> db (snd (init example_lib True False 60 example_world)) = []
   \<and> remote (example_world\<lparr>remote := Inl TransportFailure\<rparr>) = Inl TransportFailure
   \<and> fst (init example_lib True True 60 (example_world\<lparr>remote := Inl TransportFailure\<rparr>))
       = Inl TransportFailure
   \<and> remote (example_world\<lparr>store_fault := True\<rparr>) = Inr [example_payload]
   \<and> store_fault (example_world\<lparr>store_fault := True\<rparr>)
   \<and> fst (init example_lib True True 60 (example_world\<lparr>store_fault := True\<rparr>))
       = Inl StoreFailure"
proof -
  let ?t = "example_world\<lparr>remote := Inl TransportFailure\<rparr>"
  let ?s = "example_world\<lparr>store_fault := True\<rparr>"
  have ok: "remote example_world = Inr [example_payload] \<and> \<not> store_fault example_world"
    and rt: "remote ?t = Inl TransportFailure"
    and ks: "remote ?s = Inr [example_payload] \<and> store_fault ?s"
    and e: "occurrences Fetch (trace example_world) = 0" "db example_world = []"
    by (simp_all add: example_world_def)
  note a = init_refreshes_with_wrapper [of example_lib True 60 example_world]
  note b = init_refreshes_with_wrapper [of example_lib True 60 ?t]
  note c = init_refreshes_with_wrapper [of example_lib True 60 ?s]
  from a ok e have 1: "fst (init example_lib True True 60 example_world) = Inr ()
   \<and> db (snd (init example_lib True True 60 example_world))
       = [create example_lib example_payload]
   \<and> occurrences Fetch (trace (snd (init example_lib True True 60 example_world))) = 1
   \<and> occurrences Fetch (trace (snd (init example_lib True False 60 example_world))) = 0
   \<and> db (snd (init example_lib True False 60 example_world)) = []"
    by simp
  from b rt have 2: "fst (init example_lib True True 60 ?t) = Inl TransportFailure"
    by blast
  from c ks have 3: "fst (init example_lib True True 60 ?s) = Inl StoreFailure"
    by blast
  from ok rt ks 1 2 3 show ?thesis by blast
qed

end
